(* ===== verification/SIF_Prelude.thy ===== *)
theory SIF_Prelude
  imports Main "HOL-Library.Word" "HOL-Library.AList" "HOL-Library.Sublist"
begin

text \<open>
  Shared vocabulary of the Steam Icon Fixer development (src/sif.py): the characters the
  script's patterns test, the Python exceptions the script can raise, the result type of
  an operation that may raise, two list combinators the models share, and the generic
  list lemmas the component proofs use.
\<close>

section \<open>Characters, bytes and Python exceptions\<close>

abbreviation nl :: char where "nl \<equiv> CHR ''\<newline>''"
abbreviation cr :: char where "cr \<equiv> CHR 0x0D"
abbreviation bs :: char where "bs \<equiv> CHR 0x5C"

type_synonym byte = "8 word"

text \<open>The Python exceptions that reach the script's \<open>except\<close> clauses or escape it.\<close>

datatype py_exn =
    OSError            \<comment> \<open>open, scandir: missing file, permission, sharing violation\<close>
  | UnicodeDecodeError \<comment> \<open>text-mode read of bytes the locale codec rejects\<close>
  | TypeError          \<comment> \<open>a call or an operator applied to arguments of the wrong type\<close>
  | ConnectionError    \<comment> \<open>requests.get failing below HTTP\<close>
  | EOFError           \<comment> \<open>input() at the end of standard input\<close>

text \<open>
  An operation that may raise returns \<open>Inl (e, s)\<close>: the exception and the state (the
  console output so far) at the point where it was raised; \<open>Inr s\<close> is a normal return.
\<close>

type_synonym 'a res = "(py_exn \<times> 'a) + 'a"

named_theorems sif_defs "definitions of the model unfolded by the component proofs"

section \<open>Two list combinators\<close>

text \<open>
  \<open>first_down f n\<close> tries \<open>f n, f (n - 1), \<dots>, f 0\<close> and returns the first result: the
  back-off of a greedy repetition.
\<close>

primrec first_down :: "(nat \<Rightarrow> 'a option) \<Rightarrow> nat \<Rightarrow> 'a option" where
  "first_down f 0 = f 0"
| "first_down f (Suc k) = (case f (Suc k) of Some r \<Rightarrow> Some r | None \<Rightarrow> first_down f k)"

text \<open>\<open>find_some f xs\<close>: the first \<open>Some\<close> value of \<open>f\<close> along \<open>xs\<close>.\<close>

primrec find_some :: "('a \<Rightarrow> 'b option) \<Rightarrow> 'a list \<Rightarrow> 'b option" where
  "find_some f [] = None"
| "find_some f (x # xs) = (case f x of Some r \<Rightarrow> Some r | None \<Rightarrow> find_some f xs)"

lemma first_down_top:
  assumes "\<forall>k<n. f k = None"
  shows "first_down f n = f n"
  using assms
proof (induction n)
  case 0
  then show ?case by simp
next
  case (Suc n)
  then have "first_down f n = None" by simp
  then show ?case by (simp split: option.split)
qed

lemma find_some_append:
  "find_some f (xs @ ys) = (case find_some f xs of Some r \<Rightarrow> Some r | None \<Rightarrow> find_some f ys)"
  by (induction xs) (auto split: option.split)

lemma find_some_SomeD: "find_some f xs = Some r \<Longrightarrow> \<exists>x\<in>set xs. f x = Some r"
  by (induction xs) (auto split: option.splits)

section \<open>Generic list lemmas\<close>

lemma takeWhile_nth_holds:
  "k < length (takeWhile P xs) \<Longrightarrow> P (xs ! k)"
  by (metis nth_mem set_takeWhileD takeWhile_nth)

lemma take_length_takeWhile [simp]:
  "take (length (takeWhile P xs)) xs = takeWhile P xs"
  by (induction xs) auto

lemma drop_Cons_nth:
  "k < length xs \<Longrightarrow> drop k xs = xs ! k # drop (Suc k) xs"
  by (simp add: Cons_nth_drop_Suc)

lemma prefix_append_notin:
  "y \<notin> set m \<Longrightarrow> prefix m (xs @ y # ys) \<longleftrightarrow> prefix m xs"
proof (induction m arbitrary: xs)
  case Nil
  then show ?case by simp
next
  case (Cons a m)
  then show ?case by (cases xs) auto
qed

text \<open>\<open>takeWhile\<close>/\<open>dropWhile\<close> of a run that avoids the stop characters, in simp normal form.\<close>

lemma takeWhile_neq_append [simp]:
  "c \<notin> set l \<Longrightarrow> takeWhile (\<lambda>x. x \<noteq> c) (l @ ys) = l @ takeWhile (\<lambda>x. x \<noteq> c) ys"
  by (induction l) auto

lemma dropWhile_neq_append [simp]:
  "c \<notin> set l \<Longrightarrow> dropWhile (\<lambda>x. x \<noteq> c) (l @ ys) = dropWhile (\<lambda>x. x \<noteq> c) ys"
  by (induction l) auto

lemma takeWhile_neq2_append [simp]:
  "c \<notin> set l \<Longrightarrow> d \<notin> set l \<Longrightarrow>
   takeWhile (\<lambda>x. x \<noteq> c \<and> x \<noteq> d) (l @ ys) = l @ takeWhile (\<lambda>x. x \<noteq> c \<and> x \<noteq> d) ys"
  by (induction l) auto

lemma dropWhile_neq2_append [simp]:
  "c \<notin> set l \<Longrightarrow> d \<notin> set l \<Longrightarrow>
   dropWhile (\<lambda>x. x \<noteq> c \<and> x \<noteq> d) (l @ ys) = dropWhile (\<lambda>x. x \<noteq> c \<and> x \<noteq> d) ys"
  by (induction l) auto

text \<open>Python's \<open>d[k] = v\<close> on an association list adds at most the new pair.\<close>

lemma set_update_subset: "set (AList.update k v al) \<subseteq> insert (k, v) (set al)"
  by (induction al) auto

lemma length_update_le [simp]: "length (AList.update k v al) \<le> Suc (length al)"
  by (induction al) auto

lemma split_first_nl:
  assumes "nl \<in> set s"
  obtains l r where "s = l @ nl # r" and "nl \<notin> set l"
  using assms by (metis split_list_first)

end
