(* ===== verification/PyRegex.thy ===== *)
theory PyRegex
  imports SIF_Prelude
begin

text \<open>
  The fragment of Python's \<open>re\<close> module that src/sif.py uses (lines 102, 109-111): patterns
  built from literal characters, one greedy repetition of a negated character class
  (\<open>[^\n]*\<close>, \<open>[^\n\\]*\<close>) and one capturing group, matched by \<open>re.search\<close>.
  \<open>re_match\<close> is the backtracking matcher of the sre engine for this fragment: a greedy
  single-character repetition first takes the longest run and then gives characters back
  one at a time; \<open>re_search\<close> tries the start positions from left to right and returns
  the groups of the first match.

  The second half gives closed forms of the three field extractors of the script in terms
  of the newline-terminated lines of the text, and proves that the sre semantics computes
  them: the first line that contains a marker, the text after the marker up to the line
  break; the last backslash-separated segment of the first line that contains a backslash.
\<close>

section \<open>Patterns and the backtracking matcher\<close>

datatype piece =
    Chr char           \<comment> \<open>a literal character, or an escaped one such as \<open>\[\<close> or \<open>\/\<close>\<close>
  | NotStar "char list" \<comment> \<open>\<open>[^cs]*\<close>, greedy\<close>
  | GOpen              \<comment> \<open>\<open>(\<close>\<close>
  | GClose             \<comment> \<open>\<open>)\<close>\<close>

text \<open>
  \<open>re_match ps s opn caps\<close> matches the pieces \<open>ps\<close> at the start of \<open>s\<close>; \<open>opn\<close> holds the
  remaining input at each open group, \<open>caps\<close> the groups closed so far (latest first). The
  result is the list of groups, \<open>group(1)\<close> first.
\<close>

fun re_match :: "piece list \<Rightarrow> string \<Rightarrow> string list \<Rightarrow> string list \<Rightarrow> string list option" where
  "re_match [] s opn caps = Some (rev caps)"
| "re_match (Chr c # ps) s opn caps =
     (case s of [] \<Rightarrow> None | x # s' \<Rightarrow> if x = c then re_match ps s' opn caps else None)"
| "re_match (NotStar xs # ps) s opn caps =
     first_down (\<lambda>k. re_match ps (drop k s) opn caps)
       (length (takeWhile (\<lambda>x. x \<notin> set xs) s))"
| "re_match (GOpen # ps) s opn caps = re_match ps s (s # opn) caps"
| "re_match (GClose # ps) s opn caps =
     (case opn of [] \<Rightarrow> None
      | s0 # opn' \<Rightarrow> re_match ps s opn' (take (length s0 - length s) s0 # caps))"

text \<open>\<open>re.search(p, s)\<close>: the leftmost start position at which the pattern matches.\<close>

fun re_search :: "piece list \<Rightarrow> string \<Rightarrow> string list option" where
  "re_search p [] = re_match p [] [] []"
| "re_search p (c # s) =
     (case re_match p (c # s) [] [] of Some r \<Rightarrow> Some r | None \<Rightarrow> re_search p s)"

text \<open>\<open>m.group(1)\<close> of a match object; every pattern of the script has one group.\<close>

fun group1 :: "string list \<Rightarrow> string" where
  "group1 (g # _) = g"
| "group1 [] = []"

text \<open>
  A marker followed by a captured run of characters outside \<open>xs\<close> and the delimiter \<open>d\<close>:
  \<open>marker([^xs]*)d\<close>.
\<close>

definition field_pat :: "string \<Rightarrow> char list \<Rightarrow> char \<Rightarrow> piece list" where
  "field_pat m xs d = map Chr m @ [GOpen, NotStar xs, GClose, Chr d]"

section \<open>Closed forms\<close>

text \<open>The newline-terminated lines of a text, in order (an unterminated last line is dropped).\<close>

function nl_lines :: "string \<Rightarrow> string list" where
  "nl_lines s =
     (if nl \<in> set s
      then takeWhile (\<lambda>c. c \<noteq> nl) s # nl_lines (tl (dropWhile (\<lambda>c. c \<noteq> nl) s))
      else [])"
  by pat_completeness auto
termination
proof (relation "measure length")
  fix s :: string
  assume "nl \<in> set s"
  then have "dropWhile (\<lambda>c. c \<noteq> nl) s \<noteq> []" by (simp add: dropWhile_eq_Nil_conv)
  then have "0 < length (dropWhile (\<lambda>c. c \<noteq> nl) s)" by simp
  then show "(tl (dropWhile (\<lambda>c. c \<noteq> nl) s), s) \<in> measure length"
    using length_dropWhile_le [of "\<lambda>c. c \<noteq> nl" s] unfolding in_measure length_tl
    by linarith
qed simp

declare nl_lines.simps [simp del]

text \<open>The text after the first occurrence of \<open>m\<close> in \<open>l\<close>.\<close>

fun after_first :: "string \<Rightarrow> string \<Rightarrow> string option" where
  "after_first m [] = (if m = [] then Some [] else None)"
| "after_first m (c # l) =
     (if prefix m (c # l) then Some (drop (length m) (c # l)) else after_first m l)"

definition line_field :: "string \<Rightarrow> string \<Rightarrow> string option" where
  "line_field m s = find_some (after_first m) (nl_lines s)"

text \<open>The part of a line after its last backslash, if it has one.\<close>

definition last_seg :: "string \<Rightarrow> string option" where
  "last_seg l = (if bs \<in> set l then Some (rev (takeWhile (\<lambda>c. c \<noteq> bs) (rev l))) else None)"

definition line_last_seg :: "string \<Rightarrow> string option" where
  "line_last_seg s = find_some last_seg (nl_lines s)"

section \<open>Lemmas on the matcher\<close>

lemma re_match_lit:
  "re_match (map Chr m @ ps) s opn caps =
     (if prefix m s then re_match ps (drop (length m) s) opn caps else None)"
proof (induction m arbitrary: s)
  case Nil
  then show ?case by simp
next
  case (Cons a m)
  then show ?case by (cases s) auto
qed

lemma re_match_capture:
  assumes d: "d \<in> set xs"
  shows "re_match [GOpen, NotStar xs, GClose, Chr d] s [] [] =
    (if dropWhile (\<lambda>x. x \<notin> set xs) s \<noteq> [] \<and> hd (dropWhile (\<lambda>x. x \<notin> set xs) s) = d
     then Some [takeWhile (\<lambda>x. x \<notin> set xs) s] else None)"
proof -
  let ?P = "\<lambda>x. x \<notin> set xs"
  let ?n = "length (takeWhile ?P s)"
  define f where "f = (\<lambda>k. re_match [GClose, Chr d] (drop k s) [s] [])"
  have n_le: "?n \<le> length s" by (rule length_takeWhile_le)
  have f_eq: "f k = (case drop k s of [] \<Rightarrow> None
      | y # _ \<Rightarrow> if y = d then Some [take k s] else None)" if "k \<le> length s" for k
    using that by (auto simp: f_def split: list.split)
  have below: "f k = None" if "k < ?n" for k
  proof -
    from that n_le have k: "k < length s" by simp
    from that have "?P (s ! k)" by (rule takeWhile_nth_holds)
    with d have "s ! k \<noteq> d" by auto
    with k show ?thesis by (simp add: f_eq drop_Cons_nth)
  qed
  have "re_match [GOpen, NotStar xs, GClose, Chr d] s [] [] = first_down f ?n"
    unfolding f_def by (simp only: re_match.simps(3,4))
  also have "\<dots> = f ?n" using below by (simp add: first_down_top)
  also have "\<dots> = (if dropWhile ?P s \<noteq> [] \<and> hd (dropWhile ?P s) = d
      then Some [takeWhile ?P s] else None)"
    using n_le by (cases "dropWhile ?P s")
      (simp_all add: f_eq dropWhile_eq_drop [symmetric] del: dropWhile_eq_Nil_conv)
  finally show ?thesis .
qed

lemma re_match_field:
  assumes d: "d \<in> set xs"
  shows "re_match (field_pat m xs d) s [] [] =
     (if prefix m s \<and> dropWhile (\<lambda>x. x \<notin> set xs) (drop (length m) s) \<noteq> []
         \<and> hd (dropWhile (\<lambda>x. x \<notin> set xs) (drop (length m) s)) = d
      then Some [takeWhile (\<lambda>x. x \<notin> set xs) (drop (length m) s)] else None)"
proof -
  have "re_match (field_pat m xs d) s [] [] =
     (if prefix m s then re_match [GOpen, NotStar xs, GClose, Chr d] (drop (length m) s) [] []
      else None)"
    by (simp only: field_pat_def re_match_lit)
  moreover have "re_match [GOpen, NotStar xs, GClose, Chr d] (drop (length m) s) [] [] =
    (if dropWhile (\<lambda>x. x \<notin> set xs) (drop (length m) s) \<noteq> []
        \<and> hd (dropWhile (\<lambda>x. x \<notin> set xs) (drop (length m) s)) = d
     then Some [takeWhile (\<lambda>x. x \<notin> set xs) (drop (length m) s)] else None)"
    by (rule re_match_capture [OF d])
  ultimately show ?thesis by (simp del: re_match.simps)
qed

section \<open>Lines\<close>

lemma nl_lines_append [simp]:
  "nl \<notin> set l \<Longrightarrow> nl_lines (l @ nl # r) = l # nl_lines r"
  by (subst nl_lines.simps) auto

lemma nl_lines_no_nl [simp]:
  "nl \<notin> set s \<Longrightarrow> nl_lines s = []"
  by (subst nl_lines.simps) simp

lemma nl_notin_drop: "nl \<notin> set s \<Longrightarrow> nl \<notin> set (drop k s)"
  using set_drop_subset by fastforce

lemma last_seg_Nil [simp]: "last_seg [] = None"
  by (simp add: last_seg_def)

lemma last_seg_other [simp]: "c \<noteq> bs \<Longrightarrow> last_seg (c # l) = last_seg l"
  by (auto simp: last_seg_def)

lemma last_seg_bs_in [simp]: "bs \<in> set l \<Longrightarrow> last_seg (bs # l) = last_seg l"
  by (simp add: last_seg_def)

lemma last_seg_bs_notin [simp]: "bs \<notin> set l \<Longrightarrow> last_seg (bs # l) = Some l"
  by (simp add: last_seg_def)

lemma nl_lines_elem: "l \<in> set (nl_lines s) \<Longrightarrow> nl \<notin> set l"
proof (induction s rule: nl_lines.induct)
  case (1 s)
  then show ?case
    by (subst (asm) nl_lines.simps) (auto split: if_splits dest: set_takeWhileD)
qed

lemma after_first_set: "after_first m l = Some g \<Longrightarrow> set g \<subseteq> set l"
  by (induction m l rule: after_first.induct) (auto split: if_splits dest: in_set_dropD)

lemma line_field_no_nl: "line_field m s = Some g \<Longrightarrow> nl \<notin> set g"
  unfolding line_field_def by (auto dest!: find_some_SomeD after_first_set nl_lines_elem)

lemma last_seg_Some: "last_seg l = Some g \<Longrightarrow> set g \<subseteq> set l \<and> bs \<notin> set g"
proof -
  assume "last_seg l = Some g"
  then have g: "g = rev (takeWhile (\<lambda>c. c \<noteq> bs) (rev l))" by (simp add: last_seg_def split: if_splits)
  have "set (takeWhile (\<lambda>c. c \<noteq> bs) (rev l)) \<subseteq> set l" by (auto dest: set_takeWhileD)
  moreover have "bs \<notin> set (takeWhile (\<lambda>c. c \<noteq> bs) (rev l))" by (auto dest: set_takeWhileD)
  ultimately show ?thesis using g by simp
qed

lemma line_last_seg_chars: "line_last_seg s = Some g \<Longrightarrow> nl \<notin> set g \<and> bs \<notin> set g"
  unfolding line_last_seg_def by (auto dest!: find_some_SomeD last_seg_Some nl_lines_elem)

section \<open>The marker patterns \<open>m([^\n]*)\n\<close>\<close>

lemma re_search_field_no_nl:
  "nl \<notin> set s \<Longrightarrow> re_search (field_pat m [nl] nl) s = None"
proof (induction s)
  case Nil
  then show ?case by (simp add: re_match_field)
next
  case (Cons c s)
  have "\<forall>x\<in>set (drop (length m) (c # s)). x \<noteq> nl"
    using nl_notin_drop [OF Cons.prems, of "length m"] by blast
  then have "re_match (field_pat m [nl] nl) (c # s) [] [] = None"
    by (simp add: re_match_field)
  with Cons show ?case by simp
qed

lemma re_match_field_line:
  assumes "nl \<notin> set l" "nl \<notin> set m"
  shows "re_match (field_pat m [nl] nl) (l @ nl # r) [] [] =
    (if prefix m l then Some [drop (length m) l] else None)"
proof (cases "prefix m l")
  case True
  then have lm: "length m \<le> length l" by (rule prefix_length_le)
  then have d: "drop (length m) (l @ nl # r) = drop (length m) l @ nl # r" by simp
  have "nl \<notin> set (drop (length m) l)" using assms(1) by (rule nl_notin_drop)
  with True assms show ?thesis
    by (simp add: re_match_field prefix_append_notin d del: drop_append)
next
  case False
  with assms show ?thesis by (simp add: re_match_field prefix_append_notin)
qed

lemma after_first_Nil: "m \<noteq> [] \<Longrightarrow> after_first m [] = None"
  by simp

lemma re_search_field_line:
  assumes "nl \<notin> set l" "nl \<notin> set m" "m \<noteq> []"
  shows "re_search (field_pat m [nl] nl) (l @ nl # r) =
    (case after_first m l of Some g \<Rightarrow> Some [g] | None \<Rightarrow> re_search (field_pat m [nl] nl) r)"
  using assms(1)
proof (induction l)
  case Nil
  have "re_match (field_pat m [nl] nl) (nl # r) [] [] = None"
    using assms(2,3) re_match_field_line [of "[]" m r] by simp
  with assms(3) show ?case by simp
next
  case (Cons c l)
  then have IH: "re_search (field_pat m [nl] nl) (l @ nl # r) =
      (case after_first m l of Some g \<Rightarrow> Some [g] | None \<Rightarrow> re_search (field_pat m [nl] nl) r)"
    by simp
  have "re_match (field_pat m [nl] nl) ((c # l) @ nl # r) [] [] =
      (if prefix m (c # l) then Some [drop (length m) (c # l)] else None)"
    using Cons.prems assms(2) by (rule re_match_field_line)
  with IH show ?case by simp
qed

lemma re_search_field_lines:
  assumes "m \<noteq> []" "nl \<notin> set m"
  shows "re_search (field_pat m [nl] nl) s = map_option (\<lambda>g. [g]) (line_field m s)"
proof (induction s rule: nl_lines.induct)
  case (1 s)
  show ?case
  proof (cases "nl \<in> set s")
    case True
    then obtain l r where s: "s = l @ nl # r" and l: "nl \<notin> set l" by (rule split_first_nl)
    from l have "tl (dropWhile (\<lambda>c. c \<noteq> nl) s) = r" by (simp add: s)
    with "1" True have IH: "re_search (field_pat m [nl] nl) r = map_option (\<lambda>g. [g]) (line_field m r)"
      by simp
    show ?thesis using l assms
      by (simp add: s re_search_field_line IH line_field_def split: option.split)
  next
    case False
    then show ?thesis by (simp add: re_search_field_no_nl line_field_def)
  qed
qed

text \<open>
  C3: for a non-empty marker without line breaks, \<open>re.search(marker + r"([^\n]*)\n", s)\<close>
  finds the rest of the first newline-terminated line that contains the marker, after the
  marker's first occurrence in that line (the steam id and icon path extractions).
\<close>

theorem re_search_field_eq_line_field:
  "m \<noteq> [] \<Longrightarrow> nl \<notin> set m \<Longrightarrow>
   re_search (field_pat m [nl] nl) s = map_option (\<lambda>g. [g]) (line_field m s)"
  by (rule re_search_field_lines)

theorem re_search_field_witness:
  "''rungameid/'' \<noteq> [] \<and> nl \<notin> set ''rungameid/''
   \<and> re_search (field_pat ''rungameid/'' [nl] nl) (''URL=steam://rungameid/620'' @ [nl]) =
     map_option (\<lambda>g. [g]) (line_field ''rungameid/'' (''URL=steam://rungameid/620'' @ [nl]))"
  using re_search_field_eq_line_field [of "''rungameid/''" "''URL=steam://rungameid/620'' @ [nl]"]
  by simp

section \<open>The icon-name pattern \<open>\\([^\n\\]*)\n\<close>\<close>

definition iconname_pat :: "piece list" where
  "iconname_pat = field_pat [bs] [nl, bs] nl"

lemma re_match_name:
  "re_match iconname_pat s [] [] =
     (if s \<noteq> [] \<and> hd s = bs \<and> dropWhile (\<lambda>x. x \<noteq> nl \<and> x \<noteq> bs) (tl s) \<noteq> []
         \<and> hd (dropWhile (\<lambda>x. x \<noteq> nl \<and> x \<noteq> bs) (tl s)) = nl
      then Some [takeWhile (\<lambda>x. x \<noteq> nl \<and> x \<noteq> bs) (tl s)] else None)"
  by (cases s) (auto simp: iconname_pat_def re_match_field)

lemma hd_dropWhile_in:
  "dropWhile P xs \<noteq> [] \<Longrightarrow> hd (dropWhile P xs) \<in> set xs"
  by (metis dropWhile_eq_Cons_conv in_set_conv_decomp list.collapse)

lemma re_search_name_no_nl:
  "nl \<notin> set s \<Longrightarrow> re_search iconname_pat s = None"
proof (induction s)
  case Nil
  then show ?case by (simp add: re_match_name)
next
  case (Cons c s)
  have "re_match iconname_pat (c # s) [] [] = None"
  proof (cases "dropWhile (\<lambda>x. x \<noteq> nl \<and> x \<noteq> bs) s = []")
    case False
    then have "hd (dropWhile (\<lambda>x. x \<noteq> nl \<and> x \<noteq> bs) s) \<in> set s" by (rule hd_dropWhile_in)
    with Cons.prems have "hd (dropWhile (\<lambda>x. x \<noteq> nl \<and> x \<noteq> bs) s) \<noteq> nl" by auto
    then show ?thesis by (simp add: re_match_name)
  qed (simp add: re_match_name)
  with Cons show ?case by simp
qed

lemma re_match_name_line:
  assumes "nl \<notin> set l"
  shows "re_match iconname_pat (c # l @ nl # r) [] [] =
    (if c = bs \<and> bs \<notin> set l then Some [l] else None)"
proof (cases "c = bs \<and> bs \<notin> set l")
  case True
  with assms show ?thesis by (simp add: re_match_name)
next
  case False
  show ?thesis
  proof (cases "c = bs")
    case True
    with False have inl: "bs \<in> set l" by simp
    let ?P = "\<lambda>x. x \<noteq> nl \<and> x \<noteq> bs"
    have app: "dropWhile ?P (l @ nl # r) = dropWhile ?P l @ nl # r"
      using inl by (rule dropWhile_append1) simp
    have ne: "dropWhile ?P l \<noteq> []" using inl by (auto simp: dropWhile_eq_Nil_conv)
    then have "hd (dropWhile ?P l) \<in> set l" by (rule hd_dropWhile_in)
    with assms have "hd (dropWhile ?P l) \<noteq> nl" by auto
    with True inl app ne show ?thesis by (simp add: re_match_name)
  next
    case False
    then show ?thesis by (simp add: re_match_name)
  qed
qed

lemma re_search_name_line:
  assumes "nl \<notin> set l"
  shows "re_search iconname_pat (l @ nl # r) =
    (case last_seg l of Some g \<Rightarrow> Some [g] | None \<Rightarrow> re_search iconname_pat r)"
  using assms
proof (induction l)
  case Nil
  then show ?case by (simp add: re_match_name)
next
  case (Cons c l)
  then have IH: "re_search iconname_pat (l @ nl # r) =
      (case last_seg l of Some g \<Rightarrow> Some [g] | None \<Rightarrow> re_search iconname_pat r)"
    by simp
  from Cons.prems have "nl \<notin> set l" by simp
  then have m: "re_match iconname_pat (c # l @ nl # r) [] [] =
      (if c = bs \<and> bs \<notin> set l then Some [l] else None)"
    by (rule re_match_name_line)
  show ?case
  proof (cases "c = bs")
    case True
    then show ?thesis using m IH by (cases "bs \<in> set l") auto
  next
    case False
    then show ?thesis using m IH by simp
  qed
qed

lemma re_search_iconname_lines:
  "re_search iconname_pat s = map_option (\<lambda>g. [g]) (line_last_seg s)"
proof (induction s rule: nl_lines.induct)
  case (1 s)
  show ?case
  proof (cases "nl \<in> set s")
    case True
    then obtain l r where s: "s = l @ nl # r" and l: "nl \<notin> set l" by (rule split_first_nl)
    from l have "tl (dropWhile (\<lambda>c. c \<noteq> nl) s) = r" by (simp add: s)
    with "1" True have IH: "re_search iconname_pat r = map_option (\<lambda>g. [g]) (line_last_seg r)"
      by simp
    show ?thesis using l
      by (simp add: s re_search_name_line IH line_last_seg_def split: option.split)
  next
    case False
    then show ?thesis by (simp add: re_search_name_no_nl line_last_seg_def)
  qed
qed

text \<open>
  C4: \<open>re.search(r"\\([^\n\\]*)\n", s)\<close> (line 111) finds the part after the last
  backslash of the first newline-terminated line that contains a backslash.
\<close>

theorem re_search_iconname_eq_line_last_seg:
  "re_search iconname_pat s = map_option (\<lambda>g. [g]) (line_last_seg s)"
  by (rule re_search_iconname_lines)

section \<open>Literal patterns\<close>

lemma re_search_lit:
  "re_search (map Chr m) s \<noteq> None \<longleftrightarrow> sublist m s"
proof (induction s)
  case Nil
  then show ?case using re_match_lit [of m "[]" "[]" "[]" "[]"] by simp
next
  case (Cons c s)
  then show ?case
    using re_match_lit [of m "[]" "c # s" "[]" "[]"]
    by (simp add: sublist_Cons_right split: option.split)
qed

end
