(* ===== verification/PyText.thy ===== *)
theory PyText
  imports SIF_Prelude
begin

text \<open>
  The Python string and text-file behaviour that src/sif.py relies on:
  \<^item> \<open>str.endswith\<close> (line 95) and \<open>str.lower\<close> (line 149), on strings whose characters
    are Latin-1 code points (Isabelle characters are 8-bit);
  \<^item> text-mode reading (\<open>open(f, "r").read()\<close>, lines 99-101): the bytes are decoded with
    the locale code page, which raises \<open>UnicodeDecodeError\<close> on a byte it does not define,
    and universal-newline translation turns \<open>\r\n\<close> and a lone \<open>\r\<close> into \<open>\n\<close>.
  The code page is a parameter of the world model; \<open>cp1252_decode\<close> is the Windows-1252
  code page of Western-European Windows installations, with each defined byte kept as the
  8-bit character of the same code (the characters the script's patterns test are ASCII,
  which cp1252 maps to themselves).
\<close>

section \<open>str.endswith and str.lower\<close>

definition py_endswith :: "string \<Rightarrow> string \<Rightarrow> bool" where
  "py_endswith s suf \<longleftrightarrow> length suf \<le> length s \<and> drop (length s - length suf) s = suf"

text \<open>Unicode lower-casing restricted to Latin-1: \<open>A-Z\<close> and \<open>\<^verbatim>\<open>\xC0-\xDE\<close>\<close> but \<open>\<^verbatim>\<open>\xD7\<close>\<close>.\<close>

definition py_lower_char :: "char \<Rightarrow> char" where
  "py_lower_char c =
     (let n = of_char c :: nat in
      if (65 \<le> n \<and> n \<le> 90) \<or> (192 \<le> n \<and> n \<le> 222 \<and> n \<noteq> 215) then char_of (n + 32) else c)"

definition py_lower :: "string \<Rightarrow> string" where
  "py_lower s = map py_lower_char s"

section \<open>Text-mode reading\<close>

fun universal_newlines :: "string \<Rightarrow> string" where
  "universal_newlines [] = []"
| "universal_newlines (c # d # s) =
     (if c = cr then
        (if d = nl then nl # universal_newlines s else nl # universal_newlines (d # s))
      else c # universal_newlines (d # s))"
| "universal_newlines [c] = (if c = cr then [nl] else [c])"

text \<open>A byte read as the 8-bit character of the same code, and back.\<close>

definition byte_char :: "byte \<Rightarrow> char" where
  "byte_char b = char_of (unat b)"

definition char_byte :: "char \<Rightarrow> byte" where
  "char_byte c = of_nat (of_char c)"

definition cp1252_undefined :: "byte set" where
  "cp1252_undefined = {0x81, 0x8D, 0x8F, 0x90, 0x9D}"

definition cp1252_decode :: "byte list \<Rightarrow> string option" where
  "cp1252_decode bytes =
     (if list_ex (\<lambda>b. b \<in> cp1252_undefined) bytes then None else Some (map byte_char bytes))"

definition text_read :: "(byte list \<Rightarrow> string option) \<Rightarrow> byte list \<Rightarrow> string res" where
  "text_read decode bytes =
     (case decode bytes of None \<Rightarrow> Inl (UnicodeDecodeError, []) | Some t \<Rightarrow> Inr (universal_newlines t))"

definition encode_chars :: "string \<Rightarrow> byte list" where
  "encode_chars s = map char_byte s"

section \<open>Lemmas\<close>

lemma universal_newlines_no_cr: "cr \<notin> set (universal_newlines s)"
  by (induction s rule: universal_newlines.induct) auto

lemma universal_newlines_plain [simp]:
  "cr \<notin> set s \<Longrightarrow> universal_newlines s = s"
  by (induction s rule: universal_newlines.induct) auto

lemma universal_newlines_append_crlf [simp]:
  "cr \<notin> set l \<Longrightarrow> universal_newlines (l @ cr # nl # r) = l @ nl # universal_newlines r"
proof (induction l)
  case Nil
  then show ?case by simp
next
  case (Cons c l)
  then show ?case by (cases l) auto
qed

lemma byte_char_char_byte [simp]: "byte_char (char_byte c) = c"
proof -
  have "(of_char c :: nat) < 256" by (rule nat_of_char_less_256)
  then have "unat (of_nat (of_char c) :: byte) = of_char c" by (simp add: unat_of_nat)
  then show ?thesis by (simp add: byte_char_def char_byte_def)
qed

lemma cp1252_decode_encode:
  assumes "\<forall>c\<in>set s. char_byte c \<notin> cp1252_undefined"
  shows "cp1252_decode (encode_chars s) = Some s"
  using assms by (simp add: cp1252_decode_def encode_chars_def list_ex_iff comp_def map_idI)

lemma py_endswith_append [simp]: "py_endswith (s @ suf) suf"
  by (simp add: py_endswith_def)

end
