(* ===== verification/Shortcut.thy ===== *)
theory Shortcut
  imports PyRegex PyText
begin

text \<open>
  Parsing one internet-shortcut file (src/sif.py lines 101-119). \<open>parse_shortcut\<close> is the
  script's sequence of \<open>re.search\<close> calls on the decoded text: the section header check
  (line 102) and the three field extractions (lines 109-111) with their \<open>group(1)\<close>
  (lines 117-119). \<open>shortcut_spec\<close> states the same result in terms of lines, and
  \<open>parse_shortcut_eq_spec\<close> proves the two equal through the equivalence theorems of
  \<open>PyRegex\<close>. \<open>steam_shortcut_text\<close> is the file Steam writes for a desktop shortcut
  (CRLF line ends); the roundtrip theorem says the script reads the game id, the icon path
  and the icon's file name back from it. A further theorem shows that every field the
  parser returns is one line; that the icon name is not tied to the \<open>IconFile=\<close> line
  follows from the specification, which takes it from the first line with a backslash.
\<close>

section \<open>Patterns and the parser\<close>

definition header_pat :: "piece list" where
  "header_pat = map Chr (''[InternetShortcut]'' @ [nl])"

definition steamid_pat :: "piece list" where
  "steamid_pat = field_pat ''rungameid/'' [nl] nl"

definition iconpath_pat :: "piece list" where
  "iconpath_pat = field_pat ''IconFile='' [nl] nl"

datatype shortcut =
    NotInternetShortcut                 \<comment> \<open>no \<open>[InternetShortcut]\n\<close>: line 104\<close>
  | NotSteamShortcut                    \<comment> \<open>a field pattern without match: line 113\<close>
  | SteamShortcut string string string  \<comment> \<open>steam id, icon path, icon name\<close>

definition parse_shortcut :: "string \<Rightarrow> shortcut" where
  "parse_shortcut contents =
     (if re_search header_pat contents = None then NotInternetShortcut
      else (case (re_search steamid_pat contents, re_search iconpath_pat contents,
                  re_search iconname_pat contents) of
              (Some m1, Some m2, Some m3) \<Rightarrow> SteamShortcut (group1 m1) (group1 m2) (group1 m3)
            | _ \<Rightarrow> NotSteamShortcut))"

section \<open>Specification in terms of lines\<close>

definition shortcut_spec :: "string \<Rightarrow> shortcut" where
  "shortcut_spec c =
     (if \<not> sublist (''[InternetShortcut]'' @ [nl]) c then NotInternetShortcut
      else (case (line_field ''rungameid/'' c, line_field ''IconFile='' c, line_last_seg c) of
              (Some sid, Some p, Some n) \<Rightarrow> SteamShortcut sid p n
            | _ \<Rightarrow> NotSteamShortcut))"

text \<open>The last backslash-separated segment of a Windows path.\<close>

definition basename :: "string \<Rightarrow> string" where
  "basename p = rev (takeWhile (\<lambda>c. c \<noteq> bs) (rev p))"

text \<open>The file Steam writes for a game's desktop shortcut.\<close>

definition steam_shortcut_lines :: "string \<Rightarrow> string \<Rightarrow> string list" where
  "steam_shortcut_lines gid icon =
     [''[{000214A0-0000-0000-C000-000000000046}]'', ''Prop3=19,0'', ''[InternetShortcut]'',
      ''IDList='', ''IconIndex=0'', ''URL=steam://rungameid/'' @ gid, ''IconFile='' @ icon]"

definition steam_shortcut_text :: "string \<Rightarrow> string \<Rightarrow> string" where
  "steam_shortcut_text gid icon = concat (map (\<lambda>l. l @ [cr, nl]) (steam_shortcut_lines gid icon))"

section \<open>Lemmas\<close>

lemma re_search_groups:
  "re_search steamid_pat c = map_option (\<lambda>g. [g]) (line_field ''rungameid/'' c)"
  "re_search iconpath_pat c = map_option (\<lambda>g. [g]) (line_field ''IconFile='' c)"
  "re_search iconname_pat c = map_option (\<lambda>g. [g]) (line_last_seg c)"
  by (simp_all add: steamid_pat_def iconpath_pat_def
      re_search_field_lines re_search_iconname_lines)

lemma re_search_header:
  "re_search header_pat c \<noteq> None \<longleftrightarrow> sublist (''[InternetShortcut]'' @ [nl]) c"
  unfolding header_pat_def by (rule re_search_lit)

lemma after_first_absent:
  "m \<noteq> [] \<Longrightarrow> hd m \<notin> set l \<Longrightarrow> after_first m l = None"
  by (induction l) (auto simp: neq_Nil_conv)

lemma universal_newlines_crlf_lines:
  "\<forall>l\<in>set ls. cr \<notin> set l \<Longrightarrow>
   universal_newlines (concat (map (\<lambda>l. l @ [cr, nl]) ls)) = concat (map (\<lambda>l. l @ [nl]) ls)"
  by (induction ls) auto

lemma nl_lines_concat:
  "\<forall>l\<in>set ls. nl \<notin> set l \<Longrightarrow> nl_lines (concat (map (\<lambda>l. l @ [nl]) ls)) = ls"
  by (induction ls) auto

lemma last_seg_append_bs:
  "bs \<in> set l \<Longrightarrow> last_seg (p @ l) = Some (basename l)"
  by (simp add: last_seg_def basename_def takeWhile_append1 [of bs])

lemma last_seg_absent [simp]: "bs \<notin> set l \<Longrightarrow> last_seg l = None"
  by (simp add: last_seg_def)

section \<open>Theorems\<close>

lemma parse_shortcut_spec: "parse_shortcut c = shortcut_spec c"
  using re_search_header [of c]
  by (auto simp: parse_shortcut_def shortcut_spec_def re_search_groups split: option.split)

text \<open>
  C1: the script's parse of a shortcut is the line-based specification: the header line
  must be present; the steam id is the rest of the line after the first \<open>rungameid/\<close>, the
  icon path the rest of the line after the first \<open>IconFile=\<close>, the icon name the part after
  the last backslash of the first line holding a backslash (newline-terminated lines only).
\<close>

theorem parse_shortcut_eq_spec: "parse_shortcut c = shortcut_spec c"
  by (rule parse_shortcut_spec)

text \<open>
  C2: a shortcut as Steam writes it (CRLF lines, numeric game id, an icon path with at
  least one backslash) is read back as that game id, that icon path and the path's file
  name.
\<close>

theorem parse_steam_shortcut:
  assumes gid_digits: "set gid \<subseteq> set ''0123456789''"
    and icon: "nl \<notin> set icon" "cr \<notin> set icon" "bs \<in> set icon"
  shows "parse_shortcut (universal_newlines (steam_shortcut_text gid icon)) =
    SteamShortcut gid icon (basename icon)"
proof -
  have gid: "nl \<notin> set gid" "cr \<notin> set gid" "bs \<notin> set gid" "CHR ''I'' \<notin> set gid"
    using gid_digits by auto
  let ?ls = "steam_shortcut_lines gid icon"
  let ?t = "concat (map (\<lambda>l. l @ [nl]) ?ls)"
  have "\<forall>l\<in>set ?ls. cr \<notin> set l" using gid icon by (simp add: steam_shortcut_lines_def)
  then have unl: "universal_newlines (steam_shortcut_text gid icon) = ?t"
    unfolding steam_shortcut_text_def by (rule universal_newlines_crlf_lines)
  have "\<forall>l\<in>set ?ls. nl \<notin> set l" using gid icon by (simp add: steam_shortcut_lines_def)
  then have lines: "nl_lines ?t = ?ls" by (rule nl_lines_concat)
  have split3: "?t = (''[{000214A0-0000-0000-C000-000000000046}]'' @ nl # ''Prop3=19,0'' @ [nl])
      @ (''[InternetShortcut]'' @ [nl]) @ concat (map (\<lambda>l. l @ [nl]) (drop 3 ?ls))"
    by (simp add: steam_shortcut_lines_def)
  have hdr: "sublist (''[InternetShortcut]'' @ [nl]) ?t"
    unfolding split3 by (rule sublist_appendI)
  have sid: "line_field ''rungameid/'' ?t = Some gid"
    unfolding line_field_def lines by (simp add: steam_shortcut_lines_def)
  have ip: "line_field ''IconFile='' ?t = Some icon"
    unfolding line_field_def lines using gid by (simp add: steam_shortcut_lines_def after_first_absent)
  have seg: "last_seg (''IconFile='' @ icon) = Some (basename icon)"
    using icon(3) by (rule last_seg_append_bs)
  have nm: "line_last_seg ?t = Some (basename icon)"
    unfolding line_last_seg_def lines using gid seg by (simp add: steam_shortcut_lines_def)
  show ?thesis
    using hdr sid ip nm by (simp add: unl parse_shortcut_spec shortcut_spec_def)
qed

theorem parse_steam_shortcut_witness:
  "set ''620'' \<subseteq> set ''0123456789'' \<and> nl \<notin> set (''C:'' @ bs # ''icon.ico'')
   \<and> cr \<notin> set (''C:'' @ bs # ''icon.ico'') \<and> bs \<in> set (''C:'' @ bs # ''icon.ico'')
   \<and> parse_shortcut (universal_newlines (steam_shortcut_text ''620'' (''C:'' @ bs # ''icon.ico''))) =
     SteamShortcut ''620'' (''C:'' @ bs # ''icon.ico'') (basename (''C:'' @ bs # ''icon.ico''))"
  using parse_steam_shortcut [of "''620''" "''C:'' @ bs # ''icon.ico''"] by simp

text \<open>
  C10: the fields the parser returns are one-line strings: the steam id, the icon path
  and the icon name hold no line break, and the icon name no backslash, so it is a plain
  file name when it is appended to the CDN URL.
\<close>

theorem parse_shortcut_fields:
  "parse_shortcut c = SteamShortcut sid ip nm \<Longrightarrow>
   nl \<notin> set sid \<and> nl \<notin> set ip \<and> nl \<notin> set nm \<and> bs \<notin> set nm"
  by (auto simp: parse_shortcut_spec shortcut_spec_def split: if_splits option.splits
      dest: line_field_no_nl line_last_seg_chars)

theorem parse_shortcut_fields_witness:
  "parse_shortcut (''[InternetShortcut]'' @ nl # ''URL=steam://rungameid/620'' @ nl #
       ''IconFile=C:'' @ bs # ''i.ico'' @ [nl]) = SteamShortcut ''620'' (''C:'' @ bs # ''i.ico'') ''i.ico''
   \<and> nl \<notin> set ''620'' \<and> nl \<notin> set (''C:'' @ bs # ''i.ico'') \<and> nl \<notin> set ''i.ico'' \<and> bs \<notin> set ''i.ico''"
proof -
  have h: "parse_shortcut (''[InternetShortcut]'' @ nl # ''URL=steam://rungameid/620'' @ nl #
       ''IconFile=C:'' @ bs # ''i.ico'' @ [nl]) = SteamShortcut ''620'' (''C:'' @ bs # ''i.ico'') ''i.ico''"
    by code_simp
  show ?thesis using h parse_shortcut_fields [OF h] by simp
qed

end
