(* ===== verification/World.thy ===== *)
theory World
  imports PyText
begin

text \<open>
  The part of the outside world the script touches, and the events it produces.
  \<^item> \<open>node\<close>, \<open>world\<close>: the file system as a map from paths to nodes (a regular file with
    its bytes and whether this process may open it, a directory, or another kind of node),
    the entries of each directory in \<open>os.scandir\<close> order, the locale code page, the HTTP
    server's answer to each URL, whether \<open>open(path, "wb")\<close> may create or truncate a
    file, the line typed at the confirmation prompt, and \<open>os.name == "nt"\<close>.
  \<^item> The \<open>os\<close>/\<open>io\<close>/\<open>requests\<close> calls of src/sif.py as functions on it:
    \<open>os.path.exists\<close>, \<open>os.path.isfile\<close> (lines 79, 83, 92, 122, 123), the entry path of
    \<open>os.scandir\<close> (line 90), text-mode \<open>open\<close>/\<open>read\<close> (99-101), \<open>requests.get\<close> and
    \<open>Response.ok\<close> (165, 168), binary \<open>open\<close>/\<open>write\<close> (175-176).
  \<^item> \<open>event\<close>: one constructor per line the script prints and per effect on the world
    (an HTTP request, a file written); the components' runs produce lists of them, and the
    scanner, the fetcher and the main program agree on this type.
\<close>

datatype node =
    RegFile bool "byte list"  \<comment> \<open>may this process open it; its content\<close>
  | Directory
  | OtherNode                 \<comment> \<open>device, pipe, \<dots>: exists but is neither\<close>

datatype http_result =
    Response nat "byte list"  \<comment> \<open>status code and body\<close>
  | NoResponse              \<comment> \<open>DNS failure, refused connection, \<dots>: requests raises\<close>

record world =
  fs :: "string \<Rightarrow> node option"
  listing :: "string \<Rightarrow> string list"
  codec :: "byte list \<Rightarrow> string option"
  http :: "string \<Rightarrow> http_result"
  can_create :: "string \<Rightarrow> bool"
  stdin_line :: "string option"
  os_nt :: bool

datatype event =
    Banner                  \<comment> \<open>line 66\<close>
  | OsWarning               \<comment> \<open>line 70\<close>
  | Usage                   \<comment> \<open>line 74\<close>
  | PathMissing string      \<comment> \<open>line 80\<close>
  | PathIsFile string       \<comment> \<open>line 84\<close>
  | Searching string        \<comment> \<open>line 88\<close>
  | NotInternetShortcutMsg string \<comment> \<open>line 105\<close>
  | NotSteamMsg string      \<comment> \<open>line 114\<close>
  | IconIsDirMsg string     \<comment> \<open>line 124\<close>
  | IconPresentMsg string   \<comment> \<open>line 127\<close>
  | IconMissingMsg string   \<comment> \<open>line 132\<close>
  | OpenFailedMsg string    \<comment> \<open>line 134\<close>
  | NoIconsMsg              \<comment> \<open>line 142\<close>
  | FoundMsg nat            \<comment> \<open>lines 146-147\<close>
  | CancelledMsg            \<comment> \<open>line 154\<close>
  | DownloadingMsg nat      \<comment> \<open>line 158\<close>
  | HttpGet string          \<comment> \<open>line 165: a request sent\<close>
  | FileWritten string      \<comment> \<open>line 176: bytes written to a path\<close>
  | WriteFailedMsg string   \<comment> \<open>line 178\<close>
  | SavedMsg string         \<comment> \<open>line 182\<close>
  | SummaryMsg nat          \<comment> \<open>line 184\<close>

section \<open>os, io and requests\<close>

definition os_path_exists :: "world \<Rightarrow> string \<Rightarrow> bool" where
  "os_path_exists w p \<longleftrightarrow> fs w p \<noteq> None"

definition os_path_isfile :: "world \<Rightarrow> string \<Rightarrow> bool" where
  "os_path_isfile w p \<longleftrightarrow> (case fs w p of Some (RegFile _ _) \<Rightarrow> True | _ \<Rightarrow> False)"

text \<open>
  The path of a \<open>DirEntry\<close> of \<open>os.scandir(d)\<close> on Windows: a backslash is put between
  directory and name unless the directory is empty or ends in a separator or a drive colon.
\<close>

definition entry_path :: "string \<Rightarrow> string \<Rightarrow> string" where
  "entry_path d n =
     (if d = [] \<or> last d \<in> {bs, CHR ''/'', CHR '':''} then d @ n else d @ bs # n)"

text \<open>\<open>open(p, "r").read()\<close>: \<open>OSError\<close> unless \<open>p\<close> is a file this process may open.\<close>

definition read_text :: "world \<Rightarrow> string \<Rightarrow> py_exn + string" where
  "read_text w p =
     (case fs w p of
        Some (RegFile True bytes) \<Rightarrow>
          (case text_read (codec w) bytes of Inl (e, _) \<Rightarrow> Inl e | Inr t \<Rightarrow> Inr t)
      | _ \<Rightarrow> Inl OSError)"

text \<open>\<open>Response.ok\<close>: \<open>raise_for_status\<close> raises for the codes 400 to 599.\<close>

definition response_ok :: "nat \<Rightarrow> bool" where
  "response_ok code \<longleftrightarrow> \<not> (400 \<le> code \<and> code < 600)"

text \<open>
  \<open>open(p, "wb").write(body)\<close>: fails on a directory or where the world forbids creating
  the file (missing parent directory, permissions); otherwise \<open>p\<close> holds \<open>body\<close>.
\<close>

definition write_bytes :: "world \<Rightarrow> string \<Rightarrow> byte list \<Rightarrow> world option" where
  "write_bytes w p body =
     (if fs w p = Some Directory \<or> \<not> can_create w p then None
      else Some (w\<lparr>fs := (fs w)(p \<mapsto> RegFile True body)\<rparr>))"

section \<open>Lemmas\<close>

lemma os_path_isfile_exists: "os_path_isfile w p \<Longrightarrow> os_path_exists w p"
  by (auto simp: os_path_isfile_def os_path_exists_def split: option.splits)

lemma write_bytes_fs:
  "write_bytes w p body = Some w' \<Longrightarrow> fs w' = (fs w)(p \<mapsto> RegFile True body)"
  by (auto simp: write_bytes_def split: if_splits)

lemma write_bytes_other:
  "write_bytes w p body = Some w' \<Longrightarrow> w' = w\<lparr>fs := fs w'\<rparr>"
  by (auto simp: write_bytes_def split: if_splits)

lemma read_text_ok:
  "fs w p = Some (RegFile True bytes) \<Longrightarrow> codec w bytes = Some t \<Longrightarrow>
   read_text w p = Inr (universal_newlines t)"
  by (simp add: read_text_def text_read_def)

end
