(* ===== verification/Scanner.thy ===== *)
theory Scanner
  imports Shortcut World
begin

text \<open>
  The scan stage of src/sif.py (lines 58-63 and 87-136): for each entry of the directory,
  in \<open>os.scandir\<close> order, skip what is not a \<open>.url\<close> file, read it, parse it, and record
  a Steam shortcut whose icon file is missing in the module-level dict \<open>icons\<close>, keyed by
  steam id. The dict is an association list updated with \<open>AList.update\<close>, which is
  Python's \<open>d[k] = v\<close>: an existing key keeps its position and gets the new value, a new
  key goes last. The state of the loop is the dict and the console output so far.

  \<open>entry_record\<close> and \<open>pending_spec\<close> are the specification: the record an entry
  contributes, stated with the line-based \<open>shortcut_spec\<close>, and the map obtained by
  storing the records in scan order (the last record of an id wins). The refinement
  theorem says the scan's dict, read as a map, is that map.
\<close>

section \<open>State and operations\<close>

text \<open>\<open>class Icon\<close>, lines 59-63.\<close>

record icon =
  steamid :: string
  path :: string
  name :: string

record scan_state =
  icons :: "(string \<times> icon) list"
  out :: "event list"

text \<open>Lines 102-132, on the decoded text of a readable \<open>.url\<close> file.\<close>

definition classify :: "world \<Rightarrow> string \<Rightarrow> string \<Rightarrow> scan_state \<Rightarrow> scan_state" where
  "classify w n contents st =
     (case parse_shortcut contents of
        NotInternetShortcut \<Rightarrow> st\<lparr>out := out st @ [NotInternetShortcutMsg n]\<rparr>
      | NotSteamShortcut \<Rightarrow> st\<lparr>out := out st @ [NotSteamMsg n]\<rparr>
      | SteamShortcut sid ip nm \<Rightarrow>
          if os_path_exists w ip then
            (if \<not> os_path_isfile w ip then st\<lparr>out := out st @ [IconIsDirMsg n]\<rparr>
             else st\<lparr>out := out st @ [IconPresentMsg n]\<rparr>)
          else st\<lparr>icons := AList.update sid \<lparr>steamid = sid, path = ip, name = nm\<rparr> (icons st),
                  out := out st @ [IconMissingMsg n]\<rparr>)"

text \<open>
  One iteration of the loop, lines 91-136. A failed \<open>open\<close> or \<open>read\<close> lands in the
  \<open>except\<close> clause, which prints its message and then calls \<open>error.with_traceback()\<close>
  without the required argument: that raises \<open>TypeError\<close> out of the handler.
\<close>

definition scan_entry :: "world \<Rightarrow> string \<Rightarrow> string \<Rightarrow> scan_state \<Rightarrow> scan_state res" where
  "scan_entry w d n st =
     (let p = entry_path d n in
      if \<not> os_path_isfile w p then Inr st
      else if \<not> py_endswith n ''.url'' then Inr st
      else (case read_text w p of
              Inl e \<Rightarrow> Inl (TypeError, st\<lparr>out := out st @ [OpenFailedMsg n]\<rparr>)
            | Inr contents \<Rightarrow> Inr (classify w n contents st)))"

fun scan_loop :: "world \<Rightarrow> string \<Rightarrow> string list \<Rightarrow> scan_state \<Rightarrow> scan_state res" where
  "scan_loop w d [] st = Inr st"
| "scan_loop w d (n # ns) st =
     (case scan_entry w d n st of Inl x \<Rightarrow> Inl x | Inr st' \<Rightarrow> scan_loop w d ns st')"

text \<open>Line 90: \<open>os.scandir\<close> raises on a path that is not a directory.\<close>

definition scan :: "world \<Rightarrow> string \<Rightarrow> scan_state \<Rightarrow> scan_state res" where
  "scan w d st =
     (if fs w d = Some Directory then scan_loop w d (listing w d) st else Inl (OSError, st))"

section \<open>Specification\<close>

definition unreadable_url :: "world \<Rightarrow> string \<Rightarrow> string \<Rightarrow> bool" where
  "unreadable_url w d n \<longleftrightarrow>
     os_path_isfile w (entry_path d n) \<and> py_endswith n ''.url'' \<and> isl (read_text w (entry_path d n))"

definition entry_record :: "world \<Rightarrow> string \<Rightarrow> string \<Rightarrow> icon option" where
  "entry_record w d n =
     (let p = entry_path d n in
      if os_path_isfile w p \<and> py_endswith n ''.url'' then
        (case read_text w p of
           Inr c \<Rightarrow> (case shortcut_spec c of
                       SteamShortcut sid ip nm \<Rightarrow>
                         if os_path_exists w ip then None
                         else Some \<lparr>steamid = sid, path = ip, name = nm\<rparr>
                     | _ \<Rightarrow> None)
         | Inl _ \<Rightarrow> None)
      else None)"

definition pending_spec :: "icon list \<Rightarrow> (string \<rightharpoonup> icon) \<Rightarrow> (string \<rightharpoonup> icon)" where
  "pending_spec recs m = fold (\<lambda>r m. m(steamid r \<mapsto> r)) recs m"

definition dict_wf :: "(string \<times> icon) list \<Rightarrow> bool" where
  "dict_wf al \<longleftrightarrow> distinct (map fst al) \<and> (\<forall>(k, r)\<in>set al. steamid r = k)"

text \<open>The keys of a list in order of first occurrence.\<close>

definition first_occ :: "'a list \<Rightarrow> 'a list" where
  "first_occ xs = rev (remdups (rev xs))"

section \<open>An example directory\<close>

text \<open>
  A directory \<open>D\<close> with a Steam shortcut \<open>a.url\<close> (as Steam writes it, encoded in
  cp1252) whose icon \<open>C:\icon.ico\<close> is missing, and a text file \<open>b.txt\<close>; the CDN
  answers every request with three bytes and the user confirms. The witnesses of the
  scanner, fetcher and program theorems run on it.
\<close>

definition demo_icon :: string where
  "demo_icon = ''C:'' @ bs # ''icon.ico''"

definition demo_world :: world where
  "demo_world = \<lparr>fs = [''D'' \<mapsto> Directory,
       ''D'' @ bs # ''a.url'' \<mapsto> RegFile True (encode_chars (steam_shortcut_text ''620'' demo_icon)),
       ''D'' @ bs # ''b.txt'' \<mapsto> RegFile True []],
     listing = (\<lambda>_. [''a.url'', ''b.txt'']), codec = cp1252_decode,
     http = (\<lambda>_. Response 200 [1, 2, 3]), can_create = (\<lambda>_. True),
     stdin_line = Some ''y'', os_nt = True\<rparr>"

definition demo_record :: icon where
  "demo_record = \<lparr>steamid = ''620'', path = demo_icon, name = ''icon.ico''\<rparr>"

text \<open>A minimal Steam shortcut text, as the script sees it after the read.\<close>

definition demo_text :: string where
  "demo_text = ''[InternetShortcut]'' @ nl # ''URL=steam://rungameid/620'' @ nl #
     ''IconFile='' @ demo_icon @ [nl]"

section \<open>Lemmas\<close>

lemma scan_entry_icons:
  assumes "scan_entry w d n st = Inr st'"
  shows "map_of (icons st') =
    (case entry_record w d n of None \<Rightarrow> map_of (icons st) | Some r \<Rightarrow> (map_of (icons st))(steamid r \<mapsto> r))"
  using assms
  by (auto simp: scan_entry_def entry_record_def classify_def parse_shortcut_spec Let_def
      update_conv' split: if_splits sum.splits shortcut.splits)

lemma scan_entry_keys:
  assumes "scan_entry w d n st = Inr st'"
  shows "map fst (icons st') =
    (case entry_record w d n of None \<Rightarrow> map fst (icons st)
     | Some r \<Rightarrow> map fst (AList.update (steamid r) r (icons st)))"
  using assms
  by (auto simp: scan_entry_def entry_record_def classify_def parse_shortcut_spec Let_def
      split: if_splits sum.splits shortcut.splits)

lemma scan_entry_Inl:
  "scan_entry w d n st = Inl (e, st') \<longleftrightarrow>
   unreadable_url w d n \<and> e = TypeError \<and> st' = st\<lparr>out := out st @ [OpenFailedMsg n]\<rparr>"
  by (auto simp: scan_entry_def unreadable_url_def Let_def split: sum.splits)

lemma dict_wf_update:
  "steamid r = k \<Longrightarrow> dict_wf al \<Longrightarrow> dict_wf (AList.update k r al)"
  unfolding dict_wf_def
  by (auto simp: distinct_update dest: set_update_subset [THEN subsetD])

lemma classify_wf:
  "dict_wf (icons st) \<Longrightarrow> dict_wf (icons (classify w n c st))"
  by (auto simp: classify_def dict_wf_update split: shortcut.splits)

lemma scan_entry_wf:
  "scan_entry w d n st = Inr st' \<Longrightarrow> dict_wf (icons st) \<Longrightarrow> dict_wf (icons st')"
  by (auto simp: scan_entry_def Let_def classify_wf split: if_splits sum.splits)

lemma scan_entry_Inr:
  "\<not> unreadable_url w d n \<Longrightarrow> \<exists>st'. scan_entry w d n st = Inr st'"
  using scan_entry_Inl [of w d n st] by (cases "scan_entry w d n st") auto

lemma scan_entry_skip:
  "\<not> py_endswith n ''.url'' \<Longrightarrow> scan_entry w d n st = Inr st"
  by (simp add: scan_entry_def Let_def)

lemma scan_entry_icons_length:
  "scan_entry w d n st = Inr st' \<Longrightarrow>
   length (icons st') \<le> length (icons st) + (if py_endswith n ''.url'' then 1 else 0)"
  by (auto simp: scan_entry_def classify_def Let_def split: if_splits sum.splits shortcut.splits)

lemma scan_loop_icons_length:
  "scan_loop w d ns st = Inr st' \<Longrightarrow>
   length (icons st') \<le> length (icons st) + length (filter (\<lambda>n. py_endswith n ''.url'') ns)"
proof (induction ns arbitrary: st)
  case Nil
  then show ?case by simp
next
  case (Cons n ns)
  then obtain st1 where e: "scan_entry w d n st = Inr st1" and l: "scan_loop w d ns st1 = Inr st'"
    by (auto split: sum.splits)
  from scan_entry_icons_length [OF e] Cons.IH [OF l] show ?case by (simp split: if_splits)
qed

lemma scan_loop_skip_all:
  "list_all (\<lambda>n. \<not> py_endswith n ''.url'') ns \<Longrightarrow> scan_loop w d ns st = Inr st"
  by (induction ns) (simp_all add: scan_entry_skip)

lemma remdups_drop_dup: "y \<in> set zs \<Longrightarrow> remdups (xs @ y # zs) = remdups (xs @ zs)"
  by (induction xs) auto

lemma first_occ_dup:
  "first_occ (xs @ y # ys) = first_occ ((if y \<in> set xs then xs else xs @ [y]) @ ys)"
  by (simp add: first_occ_def remdups_drop_dup)

lemma first_occ_distinct: "distinct xs \<Longrightarrow> first_occ xs = xs"
  by (simp add: first_occ_def distinct_remdups_id)

lemma demo_scan:
  "scan_loop demo_world ''D'' [''a.url'', ''b.txt''] \<lparr>icons = [], out = []\<rparr> =
   Inr \<lparr>icons = [(''620'', demo_record)], out = [IconMissingMsg ''a.url'']\<rparr>"
  by code_simp

lemma demo_parse:
  "parse_shortcut demo_text = SteamShortcut ''620'' demo_icon ''icon.ico''"
  by code_simp

lemma demo_read:
  "read_text demo_world (entry_path ''D'' ''a.url'') =
   Inr (universal_newlines (steam_shortcut_text ''620'' demo_icon))"
  by code_simp

section \<open>Theorems\<close>

text \<open>
  C5: when the scan loop completes, the dict \<open>icons\<close>, read as a map, is the map obtained
  by storing, in scan order, the record of every \<open>.url\<close> entry whose text is a Steam
  shortcut (by the line-based specification) and whose icon path does not exist: a later
  shortcut with the same steam id overwrites an earlier one.
\<close>

theorem scan_loop_refines:
  "scan_loop w d ns st = Inr st' \<Longrightarrow>
   map_of (icons st') = pending_spec (List.map_filter (entry_record w d) ns) (map_of (icons st))"
proof (induction ns arbitrary: st)
  case Nil
  then show ?case by (simp add: pending_spec_def)
next
  case (Cons n ns)
  then obtain st1 where e: "scan_entry w d n st = Inr st1" and l: "scan_loop w d ns st1 = Inr st'"
    by (auto split: sum.splits)
  from Cons.IH [OF l] scan_entry_icons [OF e] show ?case
    by (simp add: pending_spec_def split: option.splits)
qed

theorem scan_loop_refines_witness:
  "scan_loop demo_world ''D'' [''a.url'', ''b.txt''] \<lparr>icons = [], out = []\<rparr> =
     Inr \<lparr>icons = [(''620'', demo_record)], out = [IconMissingMsg ''a.url'']\<rparr>
   \<and> map_of [(''620'', demo_record)] =
     pending_spec (List.map_filter (entry_record demo_world ''D'') [''a.url'', ''b.txt''])
       (map_of [])"
  using scan_loop_refines [OF demo_scan] demo_scan by simp

text \<open>
  C6: the dict's keys, in the order \<open>icons.items()\<close> yields them to the download loop, are
  the steam ids of the recorded entries in order of first occurrence: overwriting a key
  keeps its first position.
\<close>

theorem scan_loop_key_order:
  "scan_loop w d ns st = Inr st' \<Longrightarrow> distinct (map fst (icons st)) \<Longrightarrow>
   map fst (icons st') =
     first_occ (map fst (icons st) @ map steamid (List.map_filter (entry_record w d) ns))"
proof (induction ns arbitrary: st)
  case Nil
  then show ?case by (simp add: first_occ_distinct)
next
  case (Cons n ns)
  then obtain st1 where e: "scan_entry w d n st = Inr st1" and l: "scan_loop w d ns st1 = Inr st'"
    by (auto split: sum.splits)
  have keys1: "map fst (icons st1) =
      (case entry_record w d n of None \<Rightarrow> map fst (icons st)
       | Some r \<Rightarrow> map fst (AList.update (steamid r) r (icons st)))"
    by (rule scan_entry_keys [OF e])
  with Cons.prems(2) have "distinct (map fst (icons st1))"
    by (simp add: distinct_update split: option.splits)
  with Cons.IH [OF l] keys1 show ?case
    by (auto simp: update_keys first_occ_dup [of "map fst (icons st)"] split: option.splits)
qed

theorem scan_loop_key_order_witness:
  "scan_loop demo_world ''D'' [''a.url'', ''b.txt''] \<lparr>icons = [], out = []\<rparr> =
     Inr \<lparr>icons = [(''620'', demo_record)], out = [IconMissingMsg ''a.url'']\<rparr>
   \<and> distinct (map fst ([] :: (string \<times> icon) list))
   \<and> [''620''] = first_occ ([] @ map steamid (List.map_filter (entry_record demo_world ''D'') [''a.url'', ''b.txt'']))"
  using scan_loop_key_order [OF demo_scan] demo_scan by simp

text \<open>
  C7: the dict invariant, distinct keys each mapped to a record of that steam id, holds
  after every completed scan that starts from a dict satisfying it (the empty one).
\<close>

theorem scan_loop_dict_wf:
  "scan_loop w d ns st = Inr st' \<Longrightarrow> dict_wf (icons st) \<Longrightarrow> dict_wf (icons st')"
proof (induction ns arbitrary: st)
  case Nil
  then show ?case by simp
next
  case (Cons n ns)
  then obtain st1 where e: "scan_entry w d n st = Inr st1" and l: "scan_loop w d ns st1 = Inr st'"
    by (auto split: sum.splits)
  from scan_entry_wf [OF e Cons.prems(2)] show ?case by (rule Cons.IH [OF l])
qed

theorem scan_loop_dict_wf_witness:
  "scan_loop demo_world ''D'' [''a.url'', ''b.txt''] \<lparr>icons = [], out = []\<rparr> =
     Inr \<lparr>icons = [(''620'', demo_record)], out = [IconMissingMsg ''a.url'']\<rparr>
   \<and> dict_wf [] \<and> dict_wf [(''620'', demo_record)]"
proof -
  have "dict_wf []" by (simp add: dict_wf_def)
  with scan_loop_dict_wf [OF demo_scan] demo_scan show ?thesis by simp
qed

text \<open>
  C8: the scan returns if and only if every \<open>.url\<close> file of the directory can be opened
  and decoded; otherwise it raises, and what it raises is \<open>TypeError\<close>.
\<close>

theorem scan_loop_returns_iff:
  "(\<exists>st'. scan_loop w d ns st = Inr st') \<longleftrightarrow> (\<forall>n\<in>set ns. \<not> unreadable_url w d n)"
proof (induction ns arbitrary: st)
  case Nil
  then show ?case by simp
next
  case (Cons n ns)
  show ?case
  proof (cases "unreadable_url w d n")
    case True
    then have "scan_entry w d n st = Inl (TypeError, st\<lparr>out := out st @ [OpenFailedMsg n]\<rparr>)"
      by (simp add: scan_entry_Inl)
    with True show ?thesis by simp
  next
    case False
    then obtain st1 where "scan_entry w d n st = Inr st1" using scan_entry_Inr by blast
    with False Cons.IH [of st1] show ?thesis by simp
  qed
qed

theorem scan_loop_returns_iff_witness:
  "\<not> unreadable_url demo_world ''D'' ''a.url'' \<and> \<not> unreadable_url demo_world ''D'' ''b.txt''
   \<and> (\<exists>st'. scan_loop demo_world ''D'' [''a.url'', ''b.txt''] \<lparr>icons = [], out = []\<rparr> = Inr st')"
  using scan_loop_returns_iff [of demo_world "''D''" "[''a.url'', ''b.txt'']" "\<lparr>icons = [], out = []\<rparr>"]
    demo_scan by auto

text \<open>
  C9: an unreadable \<open>.url\<close> file aborts the whole scan: the \<open>except\<close> clause prints its
  message and then raises \<open>TypeError\<close> from \<open>error.with_traceback()\<close>, so no later entry
  is scanned (the specification says the file is skipped and the scan continues).
\<close>

theorem scan_loop_unreadable_aborts:
  assumes "unreadable_url w d n" and "\<forall>m\<in>set ns1. \<not> unreadable_url w d m"
  shows "\<exists>st'. scan_loop w d (ns1 @ n # ns2) st = Inl (TypeError, st') \<and> last (out st') = OpenFailedMsg n"
  using assms(2)
proof (induction ns1 arbitrary: st)
  case Nil
  have "scan_entry w d n st = Inl (TypeError, st\<lparr>out := out st @ [OpenFailedMsg n]\<rparr>)"
    using assms(1) by (simp add: scan_entry_Inl)
  then show ?case by simp
next
  case (Cons m ns1)
  then obtain st1 where "scan_entry w d m st = Inr st1" using scan_entry_Inr by fastforce
  with Cons show ?case by simp
qed

theorem scan_loop_unreadable_aborts_witness:
  "unreadable_url (demo_world\<lparr>fs := (fs demo_world)(''D'' @ bs # ''a.url'' \<mapsto> RegFile False [])\<rparr>) ''D'' ''a.url''
   \<and> (\<exists>st'. scan_loop (demo_world\<lparr>fs := (fs demo_world)(''D'' @ bs # ''a.url'' \<mapsto> RegFile False [])\<rparr>)
          ''D'' ([] @ ''a.url'' # [''b.txt'']) \<lparr>icons = [], out = []\<rparr> = Inl (TypeError, st')
        \<and> last (out st') = OpenFailedMsg ''a.url'')"
proof -
  have u: "unreadable_url (demo_world\<lparr>fs := (fs demo_world)(''D'' @ bs # ''a.url'' \<mapsto> RegFile False [])\<rparr>) ''D'' ''a.url''"
    by (simp add: unreadable_url_def os_path_isfile_def entry_path_def read_text_def py_endswith_def)
  show ?thesis using u scan_loop_unreadable_aborts [OF u, of "[]" "[''b.txt'']"] by simp
qed

text \<open>
  C11: a file without the \<open>[InternetShortcut]\<close> header line is reported as invalid and
  never enters the dict.
\<close>

theorem classify_not_internet_shortcut:
  "\<not> sublist (''[InternetShortcut]'' @ [nl]) c \<Longrightarrow>
   classify w n c st = st\<lparr>out := out st @ [NotInternetShortcutMsg n]\<rparr>"
  by (simp add: classify_def parse_shortcut_spec shortcut_spec_def)

theorem classify_not_internet_shortcut_witness:
  "\<not> sublist (''[InternetShortcut]'' @ [nl]) ''hello'' \<and>
   classify demo_world ''x.url'' ''hello'' \<lparr>icons = [], out = []\<rparr> =
     \<lparr>icons = [], out = [NotInternetShortcutMsg ''x.url'']\<rparr>"
proof -
  have h: "\<not> sublist (''[InternetShortcut]'' @ [nl]) ''hello''" by (simp add: sublist_code)
  show ?thesis using h classify_not_internet_shortcut [OF h] by simp
qed

text \<open>
  C12: a Steam shortcut whose icon path exists leaves the dict unchanged; it is reported as
  present when the path is a regular file and as a directory conflict otherwise (any
  existing node that is not a regular file, lines 122-128).
\<close>

theorem classify_icon_exists:
  "parse_shortcut c = SteamShortcut sid ip nm \<Longrightarrow> os_path_exists w ip \<Longrightarrow>
   classify w n c st = st\<lparr>out := out st @
     [if os_path_isfile w ip then IconPresentMsg n else IconIsDirMsg n]\<rparr>"
  by (simp add: classify_def)

theorem classify_icon_exists_witness:
  "parse_shortcut demo_text = SteamShortcut ''620'' demo_icon ''icon.ico''
   \<and> os_path_exists (demo_world\<lparr>fs := (fs demo_world)(demo_icon \<mapsto> Directory)\<rparr>) demo_icon
   \<and> classify (demo_world\<lparr>fs := (fs demo_world)(demo_icon \<mapsto> Directory)\<rparr>) ''a.url'' demo_text
       \<lparr>icons = [], out = []\<rparr> = \<lparr>icons = [], out = [IconIsDirMsg ''a.url'']\<rparr>"
proof -
  have x: "os_path_exists (demo_world\<lparr>fs := (fs demo_world)(demo_icon \<mapsto> Directory)\<rparr>) demo_icon"
    by (simp add: os_path_exists_def)
  show ?thesis using demo_parse x classify_icon_exists [OF demo_parse x]
    by (simp add: os_path_isfile_def)
qed

text \<open>
  C13: a Steam shortcut whose icon path does not exist is stored under its steam id
  (Python \<open>icons[steamid] = Icon(...)\<close>: an existing entry of that id is overwritten in
  place) and reported as missing.
\<close>

theorem classify_icon_missing:
  "parse_shortcut c = SteamShortcut sid ip nm \<Longrightarrow> \<not> os_path_exists w ip \<Longrightarrow>
   classify w n c st =
     st\<lparr>icons := AList.update sid \<lparr>steamid = sid, path = ip, name = nm\<rparr> (icons st),
        out := out st @ [IconMissingMsg n]\<rparr>"
  by (simp add: classify_def)

theorem classify_icon_missing_witness:
  "parse_shortcut demo_text = SteamShortcut ''620'' demo_icon ''icon.ico''
   \<and> \<not> os_path_exists demo_world demo_icon
   \<and> classify demo_world ''a.url'' demo_text \<lparr>icons = [], out = []\<rparr> =
       \<lparr>icons = [(''620'', demo_record)], out = [IconMissingMsg ''a.url'']\<rparr>"
proof -
  have x: "\<not> os_path_exists demo_world demo_icon"
    by (simp add: os_path_exists_def demo_world_def demo_icon_def)
  show ?thesis using demo_parse x classify_icon_missing [OF demo_parse x]
    by (simp add: demo_record_def)
qed

text \<open>
  C31: a completed scan adds at most one dict entry per \<open>.url\<close> entry of the directory.
\<close>

theorem scan_loop_icons_bound:
  "scan_loop w d ns st = Inr st' \<Longrightarrow>
   length (icons st') \<le> length (icons st) + length (filter (\<lambda>n. py_endswith n ''.url'') ns)"
  by (rule scan_loop_icons_length)

theorem scan_loop_icons_bound_witness:
  "scan_loop demo_world ''D'' [''a.url'', ''b.txt''] \<lparr>icons = [], out = []\<rparr> =
     Inr \<lparr>icons = [(''620'', demo_record)], out = [IconMissingMsg ''a.url'']\<rparr>
   \<and> length [(''620'', demo_record)] \<le> 0 + length (filter (\<lambda>n. py_endswith n ''.url'') [''a.url'', ''b.txt''])"
  using scan_loop_icons_bound [OF demo_scan] demo_scan by simp

end
