(* ===== verification/Fetcher.thy ===== *)
theory Fetcher
  imports Scanner
begin

text \<open>
  The download stage of src/sif.py (lines 25 and 157-182): for each item of the dict, in
  insertion order, send one GET to the CDN URL built from the steam id and the icon name;
  on a success status write the body to the icon path, counting a failed write as an
  error. The state of the loop is the world (the file system changes), the error count
  (a Python int, unbounded: \<open>nat\<close>) and the console output with the requests sent.

  On a non-success status the script means to print a message and count an error, but
  the message concatenates \<open>response.status_code\<close>, an \<open>int\<close>, to a \<open>str\<close>: the
  expression raises \<open>TypeError\<close> before anything is printed, and the loop ends there.
  A request that fails below HTTP raises from \<open>requests.get\<close>.
\<close>

section \<open>State and operations\<close>

definition baseurl :: string where
  "baseurl = ''https://steamcdn-a.akamaihd.net/steamcommunity/public/images/apps/''"

definition icon_url :: "string \<Rightarrow> icon \<Rightarrow> string" where
  "icon_url sid ic = baseurl @ sid @ ''/'' @ name ic"

record fetch_state =
  fworld :: world
  errors :: nat
  fout :: "event list"

text \<open>One iteration, lines 163-182.\<close>

definition fetch_one :: "fetch_state \<Rightarrow> string \<times> icon \<Rightarrow> fetch_state res" where
  "fetch_one st item =
     (case item of (sid, ic) \<Rightarrow>
        (let url = icon_url sid ic;
             st1 = st\<lparr>fout := fout st @ [HttpGet url]\<rparr>
         in (case http (fworld st) url of
               NoResponse \<Rightarrow> Inl (ConnectionError, st1)
             | Response code body \<Rightarrow>
                 (if \<not> response_ok code then Inl (TypeError, st1)
                  else (case write_bytes (fworld st) (path ic) body of
                          None \<Rightarrow> Inr (st1\<lparr>errors := errors st + 1,
                                          fout := fout st1 @ [WriteFailedMsg sid]\<rparr>)
                        | Some w' \<Rightarrow> Inr (st1\<lparr>fworld := w',
                                          fout := fout st1 @ [FileWritten (path ic), SavedMsg sid]\<rparr>))))))"

text \<open>\<open>for steamid, icon in icons.items()\<close>, line 162.\<close>

fun fetch_loop :: "fetch_state \<Rightarrow> (string \<times> icon) list \<Rightarrow> fetch_state res" where
  "fetch_loop st [] = Inr st"
| "fetch_loop st (item # items) =
     (case fetch_one st item of Inl x \<Rightarrow> Inl x | Inr st' \<Rightarrow> fetch_loop st' items)"

section \<open>Observations\<close>

text \<open>Whether \<open>open(p, "wb")\<close> succeeds; the URLs requested in an output.\<close>

definition writable :: "world \<Rightarrow> string \<Rightarrow> bool" where
  "writable w p \<longleftrightarrow> fs w p \<noteq> Some Directory \<and> can_create w p"

definition http_requests :: "event list \<Rightarrow> string list" where
  "http_requests evs = concat (map (\<lambda>e. case e of HttpGet u \<Rightarrow> [u] | _ \<Rightarrow> []) evs)"

definition fetch_ok :: "world \<Rightarrow> string \<times> icon \<Rightarrow> bool" where
  "fetch_ok w item \<longleftrightarrow>
     (case http w (icon_url (fst item) (snd item)) of
        Response code body \<Rightarrow> response_ok code | NoResponse \<Rightarrow> False)"

section \<open>Lemmas\<close>

lemma write_bytes_writable:
  "write_bytes w p body =
     (if writable w p then Some (w\<lparr>fs := (fs w)(p \<mapsto> RegFile True body)\<rparr>) else None)"
  by (simp add: write_bytes_def writable_def)

lemma http_requests_append [simp]:
  "http_requests (xs @ ys) = http_requests xs @ http_requests ys"
  by (simp add: http_requests_def)

lemma http_requests_simps [simp]:
  "http_requests [] = []"
  "http_requests (e # evs) = (case e of HttpGet u \<Rightarrow> [u] | _ \<Rightarrow> []) @ http_requests evs"
  by (simp_all add: http_requests_def)

lemma fetch_one_Inr:
  assumes "fetch_one st (sid, ic) = Inr st'"
  shows "fetch_ok (fworld st) (sid, ic)
    \<and> (\<exists>code body. http (fworld st) (icon_url sid ic) = Response code body
        \<and> (if writable (fworld st) (path ic)
           then fworld st' = (fworld st)\<lparr>fs := (fs (fworld st))(path ic \<mapsto> RegFile True body)\<rparr>
                \<and> errors st' = errors st
                \<and> fout st' = fout st @ [HttpGet (icon_url sid ic), FileWritten (path ic), SavedMsg sid]
           else fworld st' = fworld st \<and> errors st' = Suc (errors st)
                \<and> fout st' = fout st @ [HttpGet (icon_url sid ic), WriteFailedMsg sid]))"
  using assms
  by (auto simp: fetch_one_def fetch_ok_def write_bytes_writable Let_def
      split: http_result.splits if_splits)

lemma fetch_one_Inl:
  "fetch_one st (sid, ic) = Inl (e, st') \<longleftrightarrow>
   \<not> fetch_ok (fworld st) (sid, ic) \<and> st' = st\<lparr>fout := fout st @ [HttpGet (icon_url sid ic)]\<rparr>
   \<and> e = (case http (fworld st) (icon_url sid ic) of NoResponse \<Rightarrow> ConnectionError | _ \<Rightarrow> TypeError)"
  by (auto simp: fetch_one_def fetch_ok_def write_bytes_writable Let_def
      split: http_result.splits if_splits option.splits)

lemma fetch_one_world:
  "fetch_one st (sid, ic) = Inr st' \<Longrightarrow>
   http (fworld st') = http (fworld st) \<and> can_create (fworld st') = can_create (fworld st)
   \<and> (\<forall>p. fs (fworld st') p = Some Directory \<longleftrightarrow> fs (fworld st) p = Some Directory)
   \<and> (\<forall>p. p \<noteq> path ic \<longrightarrow> fs (fworld st') p = fs (fworld st) p)"
  by (drule fetch_one_Inr) (auto simp: writable_def split: if_splits)

lemma fetch_ok_http: "http w' = http w \<Longrightarrow> fetch_ok w' = fetch_ok w"
  by (simp add: fetch_ok_def fun_eq_iff)

lemma writable_step:
  "fetch_one st item = Inr st' \<Longrightarrow> writable (fworld st') = writable (fworld st)"
  by (cases item) (auto simp: writable_def fun_eq_iff dest: fetch_one_world)

lemma fetch_loop_fs_other:
  "fetch_loop st items = Inr st' \<Longrightarrow> p \<notin> path ` snd ` set items \<Longrightarrow>
   fs (fworld st') p = fs (fworld st) p"
proof (induction items arbitrary: st)
  case Nil
  then show ?case by simp
next
  case (Cons item items)
  obtain sid ic where item: "item = (sid, ic)" by (cases item)
  with Cons.prems obtain st1 where o: "fetch_one st (sid, ic) = Inr st1"
    and l: "fetch_loop st1 items = Inr st'" by (auto split: sum.splits)
  from Cons.prems(2) item have "p \<noteq> path ic" by auto
  with fetch_one_world [OF o] have "fs (fworld st1) p = fs (fworld st) p" by blast
  with Cons.IH [OF l] Cons.prems(2) show ?case by simp
qed

lemma demo_fetch:
  "fetch_loop \<lparr>fworld = demo_world, errors = 0, fout = []\<rparr> [(''620'', demo_record)] =
   Inr \<lparr>fworld = demo_world\<lparr>fs := (fs demo_world)(demo_icon \<mapsto> RegFile True [1, 2, 3])\<rparr>, errors = 0,
        fout = [HttpGet (icon_url ''620'' demo_record), FileWritten demo_icon, SavedMsg ''620'']\<rparr>"
  by (simp add: fetch_one_def write_bytes_def demo_world_def demo_record_def demo_icon_def
      response_ok_def)

lemma fetch_loop_Inr_iff:
  "(\<exists>st'. fetch_loop st items = Inr st') \<longleftrightarrow> list_all (fetch_ok (fworld st)) items"
proof (induction items arbitrary: st)
  case Nil
  then show ?case by simp
next
  case (Cons item items)
  obtain sid ic where item: "item = (sid, ic)" by (cases item)
  show ?case
  proof (cases "fetch_one st (sid, ic)")
    case (Inl x)
    then obtain e st1 where inl: "fetch_one st (sid, ic) = Inl (e, st1)" by (cases x) auto
    then have "\<not> fetch_ok (fworld st) (sid, ic)" by (simp add: fetch_one_Inl)
    with inl item show ?thesis by simp
  next
    case (Inr st1)
    then have ok: "fetch_ok (fworld st) (sid, ic)" using fetch_one_Inr by blast
    from Inr have "http (fworld st1) = http (fworld st)" using fetch_one_world by blast
    then have f: "fetch_ok (fworld st1) = fetch_ok (fworld st)" by (rule fetch_ok_http)
    from Inr ok f Cons.IH [of st1] item show ?thesis by simp
  qed
qed

lemma fetch_loop_fout:
  "fetch_loop st items = Inr st' \<Longrightarrow>
   \<exists>evs. fout st' = fout st @ evs \<and> http_requests evs = map (\<lambda>(sid, ic). icon_url sid ic) items"
proof (induction items arbitrary: st)
  case Nil
  then show ?case by simp
next
  case (Cons item items)
  obtain sid ic where item: "item = (sid, ic)" by (cases item)
  with Cons.prems obtain st1 where o: "fetch_one st (sid, ic) = Inr st1"
    and l: "fetch_loop st1 items = Inr st'" by (auto split: sum.splits)
  from Cons.IH [OF l] obtain evs where
    e: "fout st' = fout st1 @ evs" "http_requests evs = map (\<lambda>(sid, ic). icon_url sid ic) items"
    by blast
  from fetch_one_Inr [OF o] obtain evs1 where
    "fout st1 = fout st @ evs1" "http_requests evs1 = [icon_url sid ic]"
    by (auto split: if_splits)
  with e item show ?case by (intro exI [of _ "evs1 @ evs"]) simp
qed

lemma fetch_loop_errors_count:
  "fetch_loop st items = Inr st' \<Longrightarrow>
   errors st' = errors st + length (filter (\<lambda>item. \<not> writable (fworld st) (path (snd item))) items)"
proof (induction items arbitrary: st)
  case Nil
  then show ?case by simp
next
  case (Cons item items)
  obtain sid ic where item: "item = (sid, ic)" by (cases item)
  with Cons.prems obtain st1 where o: "fetch_one st (sid, ic) = Inr st1"
    and l: "fetch_loop st1 items = Inr st'" by (auto split: sum.splits)
  from o have "writable (fworld st1) = writable (fworld st)" by (rule writable_step)
  with Cons.IH [OF l] fetch_one_Inr [OF o] item show ?case by (auto split: if_splits)
qed

section \<open>Theorems\<close>

text \<open>
  C14: a CDN answer with an error status (400-599) makes the loop raise \<open>TypeError\<close>
  right after the request: no error is counted, nothing is written or printed for that
  icon, and no later icon is requested (the specification says the error is counted and
  the loop continues).
\<close>

theorem fetch_error_status_aborts:
  "http (fworld st) (icon_url sid ic) = Response code body \<Longrightarrow> \<not> response_ok code \<Longrightarrow>
   fetch_loop st ((sid, ic) # rest) = Inl (TypeError, st\<lparr>fout := fout st @ [HttpGet (icon_url sid ic)]\<rparr>)"
  by (simp add: fetch_one_def)

theorem fetch_error_status_aborts_witness:
  "http (fworld \<lparr>fworld = demo_world\<lparr>http := (\<lambda>_. Response 404 [])\<rparr>, errors = 0, fout = []\<rparr>) (icon_url ''620'' demo_record) = Response 404 []
   \<and> \<not> response_ok 404
   \<and> fetch_loop \<lparr>fworld = demo_world\<lparr>http := (\<lambda>_. Response 404 [])\<rparr>, errors = 0, fout = []\<rparr> [(''620'', demo_record), (''570'', demo_record)] =
     Inl (TypeError, \<lparr>fworld = demo_world\<lparr>http := (\<lambda>_. Response 404 [])\<rparr>, errors = 0, fout = []\<rparr>\<lparr>fout := fout \<lparr>fworld = demo_world\<lparr>http := (\<lambda>_. Response 404 [])\<rparr>, errors = 0, fout = []\<rparr> @ [HttpGet (icon_url ''620'' demo_record)]\<rparr>)"
proof -
  have h: "http (fworld \<lparr>fworld = demo_world\<lparr>http := (\<lambda>_. Response 404 [])\<rparr>, errors = 0, fout = []\<rparr>) (icon_url ''620'' demo_record) = Response 404 []" by simp
  have o: "\<not> response_ok 404" by (simp add: response_ok_def)
  have t: "fetch_loop \<lparr>fworld = demo_world\<lparr>http := (\<lambda>_. Response 404 [])\<rparr>, errors = 0, fout = []\<rparr> [(''620'', demo_record), (''570'', demo_record)] =
     Inl (TypeError, \<lparr>fworld = demo_world\<lparr>http := (\<lambda>_. Response 404 [])\<rparr>, errors = 0, fout = []\<rparr>\<lparr>fout := fout \<lparr>fworld = demo_world\<lparr>http := (\<lambda>_. Response 404 [])\<rparr>, errors = 0, fout = []\<rparr> @ [HttpGet (icon_url ''620'' demo_record)]\<rparr>)"
    by (rule fetch_error_status_aborts [OF h o])
  from h o t show ?thesis by blast
qed

text \<open>
  C15: the download loop returns if and only if every request gets an answer with a
  non-error status; a write failure does not stop it.
\<close>

theorem fetch_loop_returns_iff:
  "(\<exists>st'. fetch_loop st items = Inr st') \<longleftrightarrow> list_all (fetch_ok (fworld st)) items"
  by (rule fetch_loop_Inr_iff)

theorem fetch_loop_returns_iff_witness:
  "list_all (fetch_ok demo_world) [(''620'', demo_record)]
   \<and> (\<exists>st'. fetch_loop \<lparr>fworld = demo_world, errors = 0, fout = []\<rparr> [(''620'', demo_record)] = Inr st')"
proof -
  have e: "\<exists>st'. fetch_loop \<lparr>fworld = demo_world, errors = 0, fout = []\<rparr> [(''620'', demo_record)] = Inr st'"
    using demo_fetch by blast
  have "list_all (fetch_ok (fworld \<lparr>fworld = demo_world, errors = 0, fout = []\<rparr>)) [(''620'', demo_record)]"
    using fetch_loop_returns_iff [of "\<lparr>fworld = demo_world, errors = 0, fout = []\<rparr>" "[(''620'', demo_record)]"] e
    by blast
  with e show ?thesis by simp
qed

text \<open>
  C16: when the loop completes, the error count has grown by the number of icons whose
  path cannot be opened for writing.
\<close>

theorem fetch_loop_errors:
  "fetch_loop st items = Inr st' \<Longrightarrow>
   errors st' = errors st + length (filter (\<lambda>item. \<not> writable (fworld st) (path (snd item))) items)"
  by (rule fetch_loop_errors_count)

theorem fetch_loop_errors_witness:
  "fetch_loop \<lparr>fworld = demo_world, errors = 0, fout = []\<rparr> [(''620'', demo_record)] =
     Inr \<lparr>fworld = demo_world\<lparr>fs := (fs demo_world)(demo_icon \<mapsto> RegFile True [1, 2, 3])\<rparr>, errors = 0,
          fout = [HttpGet (icon_url ''620'' demo_record), FileWritten demo_icon, SavedMsg ''620'']\<rparr>
   \<and> (0::nat) = 0 + length (filter (\<lambda>item. \<not> writable demo_world (path (snd item))) [(''620'', demo_record)])"
  using fetch_loop_errors [OF demo_fetch] demo_fetch by simp

text \<open>
  C17: a completed loop has sent exactly one GET per dict item, in the dict's order, to
  \<open>baseurl + steamid + "/" + name\<close>.
\<close>

theorem fetch_loop_requests:
  "fetch_loop st items = Inr st' \<Longrightarrow>
   http_requests (fout st') = http_requests (fout st) @ map (\<lambda>(sid, ic). icon_url sid ic) items"
proof (induction items arbitrary: st)
  case Nil
  then show ?case by simp
next
  case (Cons item items)
  obtain sid ic where item: "item = (sid, ic)" by (cases item)
  with Cons.prems obtain st1 where o: "fetch_one st (sid, ic) = Inr st1"
    and l: "fetch_loop st1 items = Inr st'" by (auto split: sum.splits)
  with Cons.IH [OF l] fetch_one_Inr [OF o] item show ?case by (auto split: if_splits)
qed

theorem fetch_loop_requests_witness:
  "fetch_loop \<lparr>fworld = demo_world, errors = 0, fout = []\<rparr> [(''620'', demo_record)] =
     Inr \<lparr>fworld = demo_world\<lparr>fs := (fs demo_world)(demo_icon \<mapsto> RegFile True [1, 2, 3])\<rparr>, errors = 0,
          fout = [HttpGet (icon_url ''620'' demo_record), FileWritten demo_icon, SavedMsg ''620'']\<rparr>
   \<and> http_requests [HttpGet (icon_url ''620'' demo_record), FileWritten demo_icon, SavedMsg ''620''] =
     [icon_url ''620'' demo_record]"
  using fetch_loop_requests [OF demo_fetch] demo_fetch by simp

text \<open>
  C18: the download loop changes no file other than the icon paths of the dict.
\<close>

theorem fetch_loop_frame:
  "fetch_loop st items = Inr st' \<Longrightarrow> p \<notin> path ` snd ` set items \<Longrightarrow>
   fs (fworld st') p = fs (fworld st) p"
  by (rule fetch_loop_fs_other)

theorem fetch_loop_frame_witness:
  "fetch_loop \<lparr>fworld = demo_world, errors = 0, fout = []\<rparr> [(''620'', demo_record)] =
     Inr \<lparr>fworld = demo_world\<lparr>fs := (fs demo_world)(demo_icon \<mapsto> RegFile True [1, 2, 3])\<rparr>, errors = 0,
          fout = [HttpGet (icon_url ''620'' demo_record), FileWritten demo_icon, SavedMsg ''620'']\<rparr>
   \<and> ''D'' \<notin> path ` snd ` set [(''620'', demo_record)]
   \<and> ((fs demo_world)(demo_icon \<mapsto> RegFile True [1, 2, 3])) ''D'' = fs demo_world ''D''"
proof -
  have p: "''D'' \<notin> path ` snd ` set [(''620'', demo_record)]"
    by (simp add: demo_record_def demo_icon_def)
  show ?thesis using fetch_loop_frame [OF demo_fetch p] demo_fetch p by simp
qed

text \<open>
  C19: when the loop completes and the icon paths are distinct, every writable icon path
  holds the body the CDN returned for its URL.
\<close>

theorem fetch_loop_writes:
  "fetch_loop st items = Inr st' \<Longrightarrow> distinct (map (path \<circ> snd) items) \<Longrightarrow>
   (sid, ic) \<in> set items \<Longrightarrow> writable (fworld st) (path ic) \<Longrightarrow>
   http (fworld st) (icon_url sid ic) = Response code body \<Longrightarrow>
   fs (fworld st') (path ic) = Some (RegFile True body)"
proof (induction items arbitrary: st)
  case Nil
  then show ?case by simp
next
  case (Cons item items)
  obtain sid1 ic1 where item: "item = (sid1, ic1)" by (cases item)
  with Cons.prems obtain st1 where o: "fetch_one st (sid1, ic1) = Inr st1"
    and l: "fetch_loop st1 items = Inr st'" by (auto split: sum.splits)
  show ?case
  proof (cases "(sid, ic) = (sid1, ic1)")
    case True
    with fetch_one_Inr [OF o] Cons.prems(4,5) have w1: "fs (fworld st1) (path ic) = Some (RegFile True body)"
      by auto
    from Cons.prems(2) item True have "path ic \<notin> path ` snd ` set items" by auto
    with fetch_loop_fs_other [OF l] w1 show ?thesis by simp
  next
    case False
    with Cons.prems(3) item have mem: "(sid, ic) \<in> set items" by auto
    from Cons.prems(2) item have d: "distinct (map (path \<circ> snd) items)" by (simp add: comp_def)
    from o have "writable (fworld st1) = writable (fworld st)" by (rule writable_step)
    moreover from fetch_one_world [OF o] have "http (fworld st1) = http (fworld st)" by blast
    ultimately show ?thesis using Cons.IH [OF l d mem] Cons.prems(4,5) by simp
  qed
qed

theorem fetch_loop_writes_witness:
  "fetch_loop \<lparr>fworld = demo_world, errors = 0, fout = []\<rparr> [(''620'', demo_record)] =
     Inr \<lparr>fworld = demo_world\<lparr>fs := (fs demo_world)(demo_icon \<mapsto> RegFile True [1, 2, 3])\<rparr>, errors = 0,
          fout = [HttpGet (icon_url ''620'' demo_record), FileWritten demo_icon, SavedMsg ''620'']\<rparr>
   \<and> distinct (map (path \<circ> snd) [(''620'', demo_record)])
   \<and> (''620'', demo_record) \<in> set [(''620'', demo_record)]
   \<and> writable demo_world (path demo_record)
   \<and> http demo_world (icon_url ''620'' demo_record) = Response 200 [1, 2, 3]
   \<and> ((fs demo_world)(demo_icon \<mapsto> RegFile True [1, 2, 3])) (path demo_record) = Some (RegFile True [1, 2, 3])"
proof -
  have d: "distinct (map (path \<circ> snd) [(''620'', demo_record)])" by simp
  have m: "(''620'', demo_record) \<in> set [(''620'', demo_record)]" by simp
  have w: "writable (fworld \<lparr>fworld = demo_world, errors = 0, fout = []\<rparr>) (path demo_record)"
    by (simp add: writable_def demo_world_def demo_record_def demo_icon_def)
  have h: "http (fworld \<lparr>fworld = demo_world, errors = 0, fout = []\<rparr>) (icon_url ''620'' demo_record) =
      Response 200 [1, 2, 3]" by (simp add: demo_world_def)
  show ?thesis using fetch_loop_writes [OF demo_fetch d m w h] demo_fetch d w h by simp
qed

end
