(* ===== verification/Program.thy ===== *)
theory Program
  imports Fetcher
begin

text \<open>
  The top level of src/sif.py (lines 65-86 and 138-184): print the licence, warn on a
  non-Windows system, validate the argument, scan, ask for confirmation, download, and
  print the summary. \<open>main\<close> runs the whole script on a world and an argument vector and
  returns the output, how the process ends (\<open>sys.exit(n)\<close> or an uncaught exception)
  and the world afterwards.
\<close>

section \<open>Definitions\<close>

datatype outcome = Exit nat | Uncaught py_exn

record run =
  rout :: "event list"
  status :: outcome
  final :: world

text \<open>The process status: CPython exits with 1 after an uncaught exception.\<close>

fun exit_code :: "outcome \<Rightarrow> nat" where
  "exit_code (Exit n) = n"
| "exit_code (Uncaught _) = 1"

text \<open>Lines 149-153: \<open>input().lower()\<close> compared with \<open>"y"\<close>.\<close>

definition confirmed :: "string \<Rightarrow> bool" where
  "confirmed line \<longleftrightarrow> py_lower line = ''y''"

text \<open>Lines 138-184, after a successful scan.\<close>

definition after_scan :: "world \<Rightarrow> scan_state \<Rightarrow> run" where
  "after_scan w st =
     (if length (icons st) < 1
      then \<lparr>rout = out st @ [NoIconsMsg], status = Exit 0, final = w\<rparr>
      else (let o1 = out st @ [FoundMsg (length (icons st))] in
            (case stdin_line w of
               None \<Rightarrow> \<lparr>rout = o1, status = Uncaught EOFError, final = w\<rparr>
             | Some line \<Rightarrow>
                 (if \<not> confirmed line
                  then \<lparr>rout = o1 @ [CancelledMsg], status = Exit 0, final = w\<rparr>
                  else (case fetch_loop \<lparr>fworld = w, errors = 0,
                                          fout = o1 @ [DownloadingMsg (length (icons st))]\<rparr> (icons st) of
                          Inl (e, fst') \<Rightarrow> \<lparr>rout = fout fst', status = Uncaught e, final = fworld fst'\<rparr>
                        | Inr fst' \<Rightarrow> \<lparr>rout = fout fst' @ [SummaryMsg (errors fst')], status = Exit 0,
                                        final = fworld fst'\<rparr>)))))"

text \<open>Lines 65-90 and the scan: \<open>argv ! 1\<close> is \<open>sys.argv[1]\<close>.\<close>

definition main :: "world \<Rightarrow> string list \<Rightarrow> run" where
  "main w argv =
     (let o0 = Banner # (if os_nt w then [] else [OsWarning]) in
      if length argv < 2 then \<lparr>rout = o0 @ [Usage], status = Exit 0, final = w\<rparr>
      else (let sp = argv ! 1 in
            if \<not> os_path_exists w sp then \<lparr>rout = o0 @ [PathMissing sp], status = Exit 1, final = w\<rparr>
            else if os_path_isfile w sp then \<lparr>rout = o0 @ [PathIsFile sp], status = Exit 2, final = w\<rparr>
            else (case scan w sp \<lparr>icons = [], out = o0 @ [Searching sp]\<rparr> of
                    Inl (e, st) \<Rightarrow> \<lparr>rout = out st, status = Uncaught e, final = w\<rparr>
                  | Inr st \<Rightarrow> after_scan w st)))"

section \<open>Lemmas\<close>

lemma of_char_eq_num:
  fixes d :: char and k :: nat
  assumes "of_char d = k"
  shows "c = d \<longleftrightarrow> of_char c = k"
proof
  assume "of_char c = k"
  with assms have "(of_char c :: nat) = of_char d" by simp
  then show "c = d" by simp
qed (use assms in simp)

lemma py_lower_char_y:
  "py_lower_char c = CHR ''y'' \<longleftrightarrow> c = CHR ''y'' \<or> c = CHR ''Y''"
proof -
  let ?n = "of_char c :: nat"
  have cy: "c = CHR ''y'' \<longleftrightarrow> ?n = 121" by (rule of_char_eq_num) simp
  have cY: "c = CHR ''Y'' \<longleftrightarrow> ?n = 89" by (rule of_char_eq_num) simp
  have y: "char_of (121::nat) = CHR ''y''" using char_of_char [of "CHR ''y''"] by simp
  show ?thesis
  proof (cases "(65 \<le> ?n \<and> ?n \<le> 90) \<or> (192 \<le> ?n \<and> ?n \<le> 222 \<and> ?n \<noteq> 215)")
    case True
    then have "py_lower_char c = char_of (?n + 32)" by (simp add: py_lower_char_def)
    moreover have "char_of (?n + 32) = CHR ''y'' \<longleftrightarrow> ?n = 89"
    proof -
      have "char_of (?n + 32) = CHR ''y'' \<longleftrightarrow> char_of (?n + 32) = (char_of (121::nat) :: char)"
        by (simp only: y)
      also have "\<dots> \<longleftrightarrow> (?n + 32) mod 256 = 121 mod 256" by (rule char_of_quasi_inj)
      also have "\<dots> \<longleftrightarrow> ?n = 89"
      proof -
        have "?n + 32 < 256" using True by linarith
        then show ?thesis by simp
      qed
      finally show ?thesis .
    qed
    moreover have "?n \<noteq> 121" using True by linarith
    ultimately show ?thesis using cy cY by simp
  next
    case False
    then have "py_lower_char c = c" unfolding py_lower_char_def Let_def by (simp only: if_False)
    moreover have "?n \<noteq> 89" using False by linarith
    ultimately show ?thesis using cY by simp
  qed
qed

lemma py_lower_eq_y: "py_lower line = ''y'' \<longleftrightarrow> line = ''y'' \<or> line = ''Y''"
proof (cases line)
  case Nil
  then show ?thesis by (simp add: py_lower_def)
next
  case (Cons c cs)
  then show ?thesis by (cases cs) (simp_all add: py_lower_def py_lower_char_y)
qed

text \<open>The state an operation ends in, whether it returns or raises.\<close>

definition res_state :: "'a res \<Rightarrow> 'a" where
  "res_state r = (case r of Inl x \<Rightarrow> snd x | Inr s \<Rightarrow> s)"

lemma res_state_simps [simp]: "res_state (Inl x) = snd x" "res_state (Inr s) = s"
  by (simp_all add: res_state_def)

lemma classify_requests [simp]:
  "http_requests (out (classify w n c st)) = http_requests (out st)"
  by (simp add: classify_def split: shortcut.split)

lemma scan_entry_requests:
  "http_requests (out (res_state (scan_entry w d n st))) = http_requests (out st)"
  by (auto simp: scan_entry_def Let_def split: sum.split)

lemma scan_loop_requests:
  "http_requests (out (res_state (scan_loop w d ns st))) = http_requests (out st)"
proof (induction ns arbitrary: st)
  case Nil
  then show ?case by simp
next
  case (Cons n ns)
  show ?case
  proof (cases "scan_entry w d n st")
    case (Inl x)
    then show ?thesis using scan_entry_requests [of w d n st] by simp
  next
    case (Inr st1)
    then show ?thesis using scan_entry_requests [of w d n st] Cons.IH [of st1] by simp
  qed
qed

lemma scan_requests:
  "http_requests (out (res_state (scan w d st))) = http_requests (out st)"
  by (simp add: scan_def scan_loop_requests)

lemma after_scan_status: "status (after_scan w st) = Exit n \<Longrightarrow> n = 0"
  by (auto simp: after_scan_def Let_def split: option.splits sum.splits if_splits prod.splits)

lemma after_scan_effects:
  "final (after_scan w st) \<noteq> w \<or> http_requests (rout (after_scan w st)) \<noteq> http_requests (out st) \<Longrightarrow>
   \<exists>line. stdin_line w = Some line \<and> confirmed line"
  by (auto simp: after_scan_def Let_def split: option.splits sum.splits if_splits prod.splits)

lemma main_valid_path:
  assumes "2 \<le> length argv" and "fs w (argv ! 1) = Some Directory"
  shows "main w argv =
    (case scan_loop w (argv ! 1) (listing w (argv ! 1))
            \<lparr>icons = [], out = Banner # (if os_nt w then [] else [OsWarning]) @ [Searching (argv ! 1)]\<rparr> of
       Inl (e, st) \<Rightarrow> \<lparr>rout = out st, status = Uncaught e, final = w\<rparr>
     | Inr st \<Rightarrow> after_scan w st)"
  using assms by (simp add: main_def Let_def scan_def os_path_exists_def os_path_isfile_def)

lemma demo_facts:
  "os_nt demo_world" "stdin_line demo_world = Some ''y''" "fs demo_world ''D'' = Some Directory"
  "listing demo_world ''D'' = [''a.url'', ''b.txt'']"
  by (simp_all add: demo_world_def)

lemma demo_scan_main:
  "scan_loop demo_world ''D'' [''a.url'', ''b.txt''] \<lparr>icons = [], out = [Banner, Searching ''D'']\<rparr> =
   Inr \<lparr>icons = [(''620'', demo_record)], out = [Banner, Searching ''D'', IconMissingMsg ''a.url'']\<rparr>"
  by code_simp

lemma demo_fetch_main:
  "fetch_loop \<lparr>fworld = demo_world, errors = 0, fout = evs\<rparr> [(''620'', demo_record)] =
   Inr \<lparr>fworld = demo_world\<lparr>fs := (fs demo_world)(demo_icon \<mapsto> RegFile True [1, 2, 3])\<rparr>, errors = 0,
        fout = evs @ [HttpGet (icon_url ''620'' demo_record), FileWritten demo_icon, SavedMsg ''620'']\<rparr>"
  by (simp add: fetch_one_def write_bytes_def demo_world_def demo_record_def demo_icon_def
      response_ok_def)

lemma demo_run:
  "main demo_world [''sif'', ''D''] =
   \<lparr>rout = [Banner, Searching ''D'', IconMissingMsg ''a.url'', FoundMsg 1, DownloadingMsg 1,
           HttpGet (icon_url ''620'' demo_record), FileWritten demo_icon, SavedMsg ''620'', SummaryMsg 0],
    status = Exit 0,
    final = demo_world\<lparr>fs := (fs demo_world)(demo_icon \<mapsto> RegFile True [1, 2, 3])\<rparr>\<rparr>"
proof -
  have c: "confirmed ''y''" by (simp add: confirmed_def py_lower_eq_y)
  have "main demo_world [''sif'', ''D''] = after_scan demo_world
     \<lparr>icons = [(''620'', demo_record)], out = [Banner, Searching ''D'', IconMissingMsg ''a.url'']\<rparr>"
    by (simp add: main_valid_path demo_facts demo_scan_main del: scan_loop.simps)
  also have "\<dots> = \<lparr>rout = [Banner, Searching ''D'', IconMissingMsg ''a.url'', FoundMsg 1, DownloadingMsg 1,
           HttpGet (icon_url ''620'' demo_record), FileWritten demo_icon, SavedMsg ''620'', SummaryMsg 0],
    status = Exit 0,
    final = demo_world\<lparr>fs := (fs demo_world)(demo_icon \<mapsto> RegFile True [1, 2, 3])\<rparr>\<rparr>"
    by (simp add: after_scan_def demo_facts c demo_fetch_main del: fetch_loop.simps)
  finally show ?thesis .
qed

lemma scan_entry_same_files:
  assumes "fs w' = fs w" and "codec w' = codec w"
  shows "scan_entry w' d n st = scan_entry w d n st"
proof -
  have x: "os_path_exists w' = os_path_exists w" and f: "os_path_isfile w' = os_path_isfile w"
    unfolding os_path_exists_def [abs_def] os_path_isfile_def [abs_def] assms by (rule refl)+
  have r: "read_text w' = read_text w" unfolding read_text_def [abs_def] assms by (rule refl)
  have c: "classify w' = classify w" unfolding classify_def [abs_def] x f by (rule refl)
  show ?thesis unfolding scan_entry_def r c f by (rule refl)
qed

lemma scan_loop_same_files:
  assumes "fs w' = fs w" and "codec w' = codec w"
  shows "scan_loop w' d ns st = scan_loop w d ns st"
  by (induction ns arbitrary: st) (simp_all add: scan_entry_same_files [OF assms] split: sum.split)

lemma scan_result_status:
  "status (case r of Inl (e, st) \<Rightarrow> \<lparr>rout = out st, status = Uncaught e, final = w\<rparr>
                   | Inr st \<Rightarrow> after_scan w st) = Exit n \<Longrightarrow> n = 0"
  by (cases r) (auto dest: after_scan_status)

lemma main_exit_cases:
  "status (main w argv) = Exit n \<Longrightarrow>
   n = 0 \<or> (n = 1 \<and> 2 \<le> length argv \<and> \<not> os_path_exists w (argv ! 1))
   \<or> (n = 2 \<and> 2 \<le> length argv \<and> os_path_isfile w (argv ! 1))"
  unfolding main_def Let_def by (auto split: if_splits dest: scan_result_status)

lemma main_invalid_path:
  "2 \<le> length argv \<Longrightarrow> \<not> os_path_exists w (argv ! 1) \<Longrightarrow>
   main w argv = \<lparr>rout = Banner # (if os_nt w then [] else [OsWarning]) @ [PathMissing (argv ! 1)],
                  status = Exit 1, final = w\<rparr>"
  "2 \<le> length argv \<Longrightarrow> os_path_isfile w (argv ! 1) \<Longrightarrow>
   main w argv = \<lparr>rout = Banner # (if os_nt w then [] else [OsWarning]) @ [PathIsFile (argv ! 1)],
                  status = Exit 2, final = w\<rparr>"
  by (auto simp: main_def Let_def dest: os_path_isfile_exists)

lemma demo_error_fetch:
  "fetch_loop \<lparr>fworld = demo_world\<lparr>http := (\<lambda>_. Response 404 [])\<rparr>, errors = 0, fout = evs\<rparr>
     [(''620'', demo_record)] =
   Inl (TypeError, \<lparr>fworld = demo_world\<lparr>http := (\<lambda>_. Response 404 [])\<rparr>, errors = 0,
                     fout = evs @ [HttpGet (icon_url ''620'' demo_record)]\<rparr>)"
  by (simp add: fetch_one_def response_ok_def)

lemma demo_error_run:
  "main (demo_world\<lparr>http := (\<lambda>_. Response 404 [])\<rparr>) [''sif'', ''D''] =
   \<lparr>rout = [Banner, Searching ''D'', IconMissingMsg ''a.url'', FoundMsg 1, DownloadingMsg 1,
           HttpGet (icon_url ''620'' demo_record)],
    status = Uncaught TypeError, final = demo_world\<lparr>http := (\<lambda>_. Response 404 [])\<rparr>\<rparr>"
proof -
  have c: "confirmed ''y''" by (simp add: confirmed_def py_lower_eq_y)
  have s: "scan_loop (demo_world\<lparr>http := (\<lambda>_. Response 404 [])\<rparr>) ''D'' [''a.url'', ''b.txt'']
      \<lparr>icons = [], out = [Banner, Searching ''D'']\<rparr> =
    scan_loop demo_world ''D'' [''a.url'', ''b.txt''] \<lparr>icons = [], out = [Banner, Searching ''D'']\<rparr>"
    by (rule scan_loop_same_files) simp_all
  have "main (demo_world\<lparr>http := (\<lambda>_. Response 404 [])\<rparr>) [''sif'', ''D''] =
    after_scan (demo_world\<lparr>http := (\<lambda>_. Response 404 [])\<rparr>)
      \<lparr>icons = [(''620'', demo_record)], out = [Banner, Searching ''D'', IconMissingMsg ''a.url'']\<rparr>"
    by (simp add: main_valid_path demo_facts s demo_scan_main del: scan_loop.simps)
  also have "\<dots> = \<lparr>rout = [Banner, Searching ''D'', IconMissingMsg ''a.url'', FoundMsg 1, DownloadingMsg 1,
           HttpGet (icon_url ''620'' demo_record)],
    status = Uncaught TypeError, final = demo_world\<lparr>http := (\<lambda>_. Response 404 [])\<rparr>\<rparr>"
    by (simp add: after_scan_def demo_facts c demo_error_fetch del: fetch_loop.simps)
  finally show ?thesis .
qed

text \<open>The exception a run of an operation ends with, if any.\<close>

definition res_exn :: "'a res \<Rightarrow> py_exn option" where
  "res_exn r = (case r of Inl x \<Rightarrow> Some (fst x) | Inr _ \<Rightarrow> None)"

lemma res_exn_simps [simp]: "res_exn (Inl x) = Some (fst x)" "res_exn (Inr s) = None"
  by (simp_all add: res_exn_def)

text \<open>
  Whether the download loop raises, and what, depends only on the CDN's answers and on
  which icon paths can be written, not on the error count or the output so far.
\<close>

lemma fetch_loop_exn_indep:
  "http (fworld s1) = http (fworld s2) \<Longrightarrow> writable (fworld s1) = writable (fworld s2) \<Longrightarrow>
   res_exn (fetch_loop s1 items) = res_exn (fetch_loop s2 items)"
proof (induction items arbitrary: s1 s2)
  case Nil
  then show ?case by simp
next
  case (Cons item items)
  obtain sid ic where item: "item = (sid, ic)" by (cases item)
  have ok: "fetch_ok (fworld s1) = fetch_ok (fworld s2)" using Cons.prems(1) by (rule fetch_ok_http)
  show ?case
  proof (cases "fetch_ok (fworld s1) (sid, ic)")
    case True
    have ex: "\<exists>t. fetch_one s (sid, ic) = Inr t" if "fetch_ok (fworld s) (sid, ic)" for s
      using that by (cases "fetch_one s (sid, ic)") (auto simp: fetch_one_Inl)
    from True ok have True2: "fetch_ok (fworld s2) (sid, ic)" by simp
    from ex [OF True] obtain t1 where o1: "fetch_one s1 (sid, ic) = Inr t1" by blast
    from ex [OF True2] obtain t2 where o2: "fetch_one s2 (sid, ic) = Inr t2" by blast
    have "http (fworld t1) = http (fworld t2)"
      using fetch_one_world [OF o1] fetch_one_world [OF o2] Cons.prems(1) by simp
    moreover have "writable (fworld t1) = writable (fworld t2)"
      using writable_step [OF o1] writable_step [OF o2] Cons.prems(2) by simp
    ultimately have "res_exn (fetch_loop t1 items) = res_exn (fetch_loop t2 items)" by (rule Cons.IH)
    with o1 o2 item show ?thesis by simp
  next
    case False
    have "fetch_one s (sid, ic) = Inl (case http (fworld s) (icon_url sid ic) of
            NoResponse \<Rightarrow> ConnectionError | _ \<Rightarrow> TypeError, s\<lparr>fout := fout s @ [HttpGet (icon_url sid ic)]\<rparr>)"
      if "\<not> fetch_ok (fworld s) (sid, ic)" for s
      using that by (simp add: fetch_one_Inl)
    with False ok Cons.prems(1) item show ?thesis by simp
  qed
qed

text \<open>The status after the scan, read off the download loop's exception.\<close>

lemma after_scan_status_eq:
  "status (after_scan w st) =
     (if icons st = [] then Exit 0
      else case stdin_line w of None \<Rightarrow> Uncaught EOFError
           | Some line \<Rightarrow> if \<not> confirmed line then Exit 0
                          else (case res_exn (fetch_loop \<lparr>fworld = w, errors = 0,
                                   fout = out st @ [FoundMsg (length (icons st)), DownloadingMsg (length (icons st))]\<rparr>
                                   (icons st)) of
                                  Some e \<Rightarrow> Uncaught e | None \<Rightarrow> Exit 0))"
  by (auto simp: after_scan_def split: option.split sum.split)

text \<open>
  The scan does not read what has been printed before it: run after more output, it
  ends the same way with that output in front.
\<close>

definition out_prefix :: "event list \<Rightarrow> scan_state \<Rightarrow> scan_state" where
  "out_prefix xs st = st\<lparr>out := xs @ out st\<rparr>"

lemma classify_out_prefix:
  "classify w n c (out_prefix xs st) = out_prefix xs (classify w n c st)"
  by (simp add: classify_def out_prefix_def split: shortcut.split)

lemma scan_entry_out_prefix:
  "scan_entry w d n (out_prefix xs st) =
   map_sum (apsnd (out_prefix xs)) (out_prefix xs) (scan_entry w d n st)"
  by (simp add: scan_entry_def Let_def classify_out_prefix split: sum.split)
     (simp add: out_prefix_def)

lemma scan_loop_out_prefix:
  "scan_loop w d ns (out_prefix xs st) =
   map_sum (apsnd (out_prefix xs)) (out_prefix xs) (scan_loop w d ns st)"
  by (induction ns arbitrary: st) (simp_all add: scan_entry_out_prefix split: sum.split)

lemma writable_os_nt [simp]: "writable (w\<lparr>os_nt := b\<rparr>) = writable w"
  by (simp add: writable_def fun_eq_iff)

lemma after_scan_os_nt:
  "status (after_scan (w\<lparr>os_nt := b\<rparr>) (out_prefix xs st)) = status (after_scan w (out_prefix ys st))"
proof -
  have e: "res_exn (fetch_loop \<lparr>fworld = w\<lparr>os_nt := b\<rparr>, errors = 0, fout = xs @ f\<rparr> items) =
        res_exn (fetch_loop \<lparr>fworld = w, errors = 0, fout = ys @ f\<rparr> items)" for f items
    by (rule fetch_loop_exn_indep) simp_all
  show ?thesis
    by (cases "stdin_line w") (simp_all add: after_scan_status_eq out_prefix_def e)
qed

lemma main_valid_path_prefix:
  assumes "2 \<le> length argv" and "fs w (argv ! 1) = Some Directory"
  shows "main w argv =
    (case map_sum (apsnd (out_prefix (Banner # (if os_nt w then [] else [OsWarning]))))
            (out_prefix (Banner # (if os_nt w then [] else [OsWarning])))
            (scan_loop w (argv ! 1) (listing w (argv ! 1)) \<lparr>icons = [], out = [Searching (argv ! 1)]\<rparr>) of
       Inl (e, st) \<Rightarrow> \<lparr>rout = out st, status = Uncaught e, final = w\<rparr>
     | Inr st \<Rightarrow> after_scan w st)"
proof -
  have "\<lparr>icons = [], out = Banner # (if os_nt w then [] else [OsWarning]) @ [Searching (argv ! 1)]\<rparr> =
      out_prefix (Banner # (if os_nt w then [] else [OsWarning])) \<lparr>icons = [], out = [Searching (argv ! 1)]\<rparr>"
    by (simp add: out_prefix_def)
  then show ?thesis by (simp only: main_valid_path [OF assms] scan_loop_out_prefix)
qed

section \<open>Theorems\<close>

text \<open>
  C20: the script changes the file system or sends a request only after the user has
  typed a line that confirms (the download stage is gated by the prompt).
\<close>

theorem main_effects_need_confirmation:
  assumes "final (main w argv) \<noteq> w \<or> http_requests (rout (main w argv)) \<noteq> []"
  shows "\<exists>line. stdin_line w = Some line \<and> confirmed line"
proof -
  let ?s0 = "\<lparr>icons = [], out = Banner # (if os_nt w then [] else [OsWarning]) @ [Searching (argv ! 1)]\<rparr>"
  have r0: "http_requests (out (res_state (scan w (argv ! 1) ?s0))) = []"
    by (simp add: scan_requests)
  show ?thesis
  proof (cases "scan w (argv ! 1) ?s0")
    case (Inl x)
    with r0 assms show ?thesis by (cases x) (auto simp: main_def Let_def split: if_splits)
  next
    case (Inr st)
    with r0 have "http_requests (out st) = []" by simp
    with Inr assms after_scan_effects [of w st] show ?thesis
      by (auto simp: main_def Let_def split: if_splits)
  qed
qed

theorem main_effects_need_confirmation_witness:
  "http_requests (rout (main demo_world [''sif'', ''D''])) = [icon_url ''620'' demo_record]
   \<and> (\<exists>line. stdin_line demo_world = Some line \<and> confirmed line)"
proof -
  have h: "final (main demo_world [''sif'', ''D'']) \<noteq> demo_world
           \<or> http_requests (rout (main demo_world [''sif'', ''D''])) \<noteq> []"
    by (simp add: demo_run)
  show ?thesis using main_effects_need_confirmation [OF h] by (simp add: demo_run)
qed

text \<open>
  C21: the answer to the prompt confirms exactly when it is \<open>y\<close> or \<open>Y\<close>
  (\<open>input().lower() == "y"\<close>, lines 149-153).
\<close>

theorem confirmed_iff: "confirmed line \<longleftrightarrow> line = ''y'' \<or> line = ''Y''"
  by (simp add: confirmed_def py_lower_eq_y)

text \<open>
  C23: a path argument that is a regular file ends the script with status 2 right after
  its message, with the world unchanged.
\<close>

theorem main_path_is_file:
  "2 \<le> length argv \<Longrightarrow> os_path_isfile w (argv ! 1) \<Longrightarrow>
   main w argv = \<lparr>rout = Banner # (if os_nt w then [] else [OsWarning]) @ [PathIsFile (argv ! 1)],
                  status = Exit 2, final = w\<rparr>"
  by (rule main_invalid_path(2))

theorem main_path_is_file_witness:
  "2 \<le> length [''sif'', ''D'' @ bs # ''b.txt''] \<and> os_path_isfile demo_world (''D'' @ bs # ''b.txt'')
   \<and> main demo_world [''sif'', ''D'' @ bs # ''b.txt''] =
       \<lparr>rout = [Banner, PathIsFile (''D'' @ bs # ''b.txt'')], status = Exit 2, final = demo_world\<rparr>"
proof -
  have l: "2 \<le> length [''sif'', ''D'' @ bs # ''b.txt'']" by simp
  have f: "os_path_isfile demo_world ([''sif'', ''D'' @ bs # ''b.txt''] ! 1)"
    by (simp add: os_path_isfile_def demo_world_def)
  show ?thesis using l f main_path_is_file [OF l f] by (simp add: demo_facts)
qed

text \<open>
  C25: the process status is non-zero exactly when the path argument is missing or a
  regular file, or when an exception escapes; the specification promises a non-zero
  status only for the two path errors, but every uncaught exception (an unreadable
  shortcut, an error status, a failed connection, end of input, a path that is neither
  file nor directory) ends the process with status 1 as well.
\<close>

theorem main_nonzero_exit_iff:
  "exit_code (status (main w argv)) \<noteq> 0 \<longleftrightarrow>
   (2 \<le> length argv \<and> (\<not> os_path_exists w (argv ! 1) \<or> os_path_isfile w (argv ! 1)))
   \<or> (\<exists>e. status (main w argv) = Uncaught e)"
  using main_exit_cases [of w argv] main_invalid_path [of argv w]
  by (cases "status (main w argv)") auto

theorem main_nonzero_exit_iff_witness:
  "exit_code (status (main (demo_world\<lparr>http := (\<lambda>_. Response 404 [])\<rparr>) [''sif'', ''D''])) = 1
   \<and> os_path_exists (demo_world\<lparr>http := (\<lambda>_. Response 404 [])\<rparr>) ''D''
   \<and> \<not> os_path_isfile (demo_world\<lparr>http := (\<lambda>_. Response 404 [])\<rparr>) ''D''
   \<and> (\<exists>e. status (main (demo_world\<lparr>http := (\<lambda>_. Response 404 [])\<rparr>) [''sif'', ''D'']) = Uncaught e)"
proof -
  have d: "os_path_exists (demo_world\<lparr>http := (\<lambda>_. Response 404 [])\<rparr>) ''D''
      \<and> \<not> os_path_isfile (demo_world\<lparr>http := (\<lambda>_. Response 404 [])\<rparr>) ''D''"
    by (simp add: os_path_exists_def os_path_isfile_def demo_facts)
  have "exit_code (status (main (demo_world\<lparr>http := (\<lambda>_. Response 404 [])\<rparr>) [''sif'', ''D''])) \<noteq> 0"
    using main_nonzero_exit_iff [of "demo_world\<lparr>http := (\<lambda>_. Response 404 [])\<rparr>" "[''sif'', ''D'']"]
    by (simp add: demo_error_run)
  with d show ?thesis by (simp add: demo_error_run)
qed

text \<open>
  C26: with icons to download, an answer other than \<open>y\<close>/\<open>Y\<close> prints the count and
  "Cancelled." and exits 0: no request is sent and the world is unchanged.
\<close>

theorem after_scan_declined:
  "icons st \<noteq> [] \<Longrightarrow> stdin_line w = Some line \<Longrightarrow> \<not> confirmed line \<Longrightarrow>
   after_scan w st = \<lparr>rout = out st @ [FoundMsg (length (icons st)), CancelledMsg],
                      status = Exit 0, final = w\<rparr>"
  by (simp add: after_scan_def)

theorem after_scan_declined_witness:
  "[(''620'', demo_record)] \<noteq> [] \<and> stdin_line (demo_world\<lparr>stdin_line := Some ''n''\<rparr>) = Some ''n''
   \<and> \<not> confirmed ''n''
   \<and> after_scan (demo_world\<lparr>stdin_line := Some ''n''\<rparr>) \<lparr>icons = [(''620'', demo_record)], out = []\<rparr> =
       \<lparr>rout = [FoundMsg 1, CancelledMsg], status = Exit 0, final = demo_world\<lparr>stdin_line := Some ''n''\<rparr>\<rparr>"
proof -
  have i: "icons \<lparr>icons = [(''620'', demo_record)], out = []\<rparr> \<noteq> []" by simp
  have l: "stdin_line (demo_world\<lparr>stdin_line := Some ''n''\<rparr>) = Some ''n''" by simp
  have c: "\<not> confirmed ''n''" by (simp add: confirmed_def py_lower_eq_y)
  show ?thesis using c after_scan_declined [OF i l c] by simp
qed

text \<open>
  C27: a directory without \<open>.url\<close> entries ends with "No icons need to be
  redownloaded" and status 0, touching nothing.
\<close>

theorem main_no_url_files:
  "2 \<le> length argv \<Longrightarrow> fs w (argv ! 1) = Some Directory \<Longrightarrow>
   list_all (\<lambda>n. \<not> py_endswith n ''.url'') (listing w (argv ! 1)) \<Longrightarrow>
   main w argv = \<lparr>rout = Banner # (if os_nt w then [] else [OsWarning]) @ [Searching (argv ! 1), NoIconsMsg],
                  status = Exit 0, final = w\<rparr>"
  by (simp add: main_valid_path scan_loop_skip_all after_scan_def)

theorem main_no_url_files_witness:
  "2 \<le> length [''sif'', ''D''] \<and> fs (demo_world\<lparr>listing := (\<lambda>_. [''b.txt''])\<rparr>) ''D'' = Some Directory
   \<and> list_all (\<lambda>n. \<not> py_endswith n ''.url'') [''b.txt'']
   \<and> main (demo_world\<lparr>listing := (\<lambda>_. [''b.txt''])\<rparr>) [''sif'', ''D''] =
       \<lparr>rout = [Banner, Searching ''D'', NoIconsMsg], status = Exit 0,
        final = demo_world\<lparr>listing := (\<lambda>_. [''b.txt''])\<rparr>\<rparr>"
proof -
  have l: "2 \<le> length [''sif'', ''D'']" by simp
  have d: "fs (demo_world\<lparr>listing := (\<lambda>_. [''b.txt''])\<rparr>) ([''sif'', ''D''] ! 1) = Some Directory"
    by (simp add: demo_facts)
  have n: "list_all (\<lambda>n. \<not> py_endswith n ''.url'')
      (listing (demo_world\<lparr>listing := (\<lambda>_. [''b.txt''])\<rparr>) ([''sif'', ''D''] ! 1))"
    by (simp add: py_endswith_def)
  show ?thesis using l d n main_no_url_files [OF l d n] by (simp add: demo_facts)
qed

text \<open>
  C28: a path that exists but is neither a regular file nor a directory (a device, a
  pipe) passes both checks, and \<open>os.scandir\<close> then raises: the process dies with an
  uncaught \<open>OSError\<close>, a case the specification does not cover.
\<close>

theorem main_not_a_directory:
  "2 \<le> length argv \<Longrightarrow> fs w (argv ! 1) = Some OtherNode \<Longrightarrow>
   main w argv = \<lparr>rout = Banner # (if os_nt w then [] else [OsWarning]) @ [Searching (argv ! 1)],
                  status = Uncaught OSError, final = w\<rparr>"
  by (simp add: main_def Let_def scan_def os_path_exists_def os_path_isfile_def)

theorem main_not_a_directory_witness:
  "2 \<le> length [''sif'', ''D''] \<and> fs (demo_world\<lparr>fs := (fs demo_world)(''D'' \<mapsto> OtherNode)\<rparr>) ''D'' = Some OtherNode
   \<and> main (demo_world\<lparr>fs := (fs demo_world)(''D'' \<mapsto> OtherNode)\<rparr>) [''sif'', ''D''] =
       \<lparr>rout = [Banner, Searching ''D''], status = Uncaught OSError,
        final = demo_world\<lparr>fs := (fs demo_world)(''D'' \<mapsto> OtherNode)\<rparr>\<rparr>"
proof -
  have l: "2 \<le> length [''sif'', ''D'']" by simp
  have d: "fs (demo_world\<lparr>fs := (fs demo_world)(''D'' \<mapsto> OtherNode)\<rparr>) ([''sif'', ''D''] ! 1) = Some OtherNode"
    by simp
  show ?thesis using l d main_not_a_directory [OF l d] by (simp add: demo_facts)
qed

text \<open>
  C29: the operating-system check only prints a warning: on a system that is not
  Windows the script runs exactly as on Windows and ends with the same status.
\<close>

theorem main_os_warning_only: "status (main (w\<lparr>os_nt := b\<rparr>) argv) = status (main w argv)"
proof (cases "2 \<le> length argv \<and> fs w (argv ! 1) = Some Directory")
  case True
  have same: "scan_loop (w\<lparr>os_nt := b\<rparr>) d ns st = scan_loop w d ns st" for d ns st
    by (rule scan_loop_same_files) simp_all
  from True have d: "fs (w\<lparr>os_nt := b\<rparr>) (argv ! 1) = Some Directory" by simp
  show ?thesis
  proof (cases "scan_loop w (argv ! 1) (listing w (argv ! 1)) \<lparr>icons = [], out = [Searching (argv ! 1)]\<rparr>")
    case (Inl x)
    then show ?thesis using True d
      by (cases x) (simp add: main_valid_path_prefix same del: scan_loop.simps)
  next
    case (Inr st)
    then show ?thesis using True d
      by (simp add: main_valid_path_prefix same after_scan_os_nt del: scan_loop.simps)
  qed
next
  case False
  have x: "os_path_exists (w\<lparr>os_nt := b\<rparr>) = os_path_exists w"
    and f: "os_path_isfile (w\<lparr>os_nt := b\<rparr>) = os_path_isfile w"
    by (simp_all add: fun_eq_iff os_path_exists_def os_path_isfile_def)
  from False show ?thesis by (auto simp: main_def Let_def x f scan_def)
qed

text \<open>
  C30: with icons to download, end of input at the prompt makes \<open>input()\<close> raise
  \<open>EOFError\<close>: the process dies after the count, before any request (the
  specification only speaks of a yes/no answer).
\<close>

theorem after_scan_eof:
  "icons st \<noteq> [] \<Longrightarrow> stdin_line w = None \<Longrightarrow>
   after_scan w st = \<lparr>rout = out st @ [FoundMsg (length (icons st))],
                      status = Uncaught EOFError, final = w\<rparr>"
  by (simp add: after_scan_def)

theorem after_scan_eof_witness:
  "[(''620'', demo_record)] \<noteq> [] \<and> stdin_line (demo_world\<lparr>stdin_line := None\<rparr>) = None
   \<and> after_scan (demo_world\<lparr>stdin_line := None\<rparr>) \<lparr>icons = [(''620'', demo_record)], out = []\<rparr> =
       \<lparr>rout = [FoundMsg 1], status = Uncaught EOFError, final = demo_world\<lparr>stdin_line := None\<rparr>\<rparr>"
proof -
  have i: "icons \<lparr>icons = [(''620'', demo_record)], out = []\<rparr> \<noteq> []" by simp
  have l: "stdin_line (demo_world\<lparr>stdin_line := None\<rparr>) = None" by simp
  show ?thesis using after_scan_eof [OF i l] by simp
qed

text \<open>
  C32: with icons to download, a confirming answer and an answer with a non-error status
  to every request, the script runs the whole download and exits 0: after the count and
  "Downloading" it sends one request per dict item in the dict's order and ends with a
  summary whose count is the number of icon paths that cannot be written.
\<close>

theorem after_scan_confirmed_completes:
  assumes "icons st \<noteq> []" and "stdin_line w = Some line" and "confirmed line"
    and "list_all (fetch_ok w) (icons st)"
  shows "status (after_scan w st) = Exit 0
    \<and> (\<exists>evs. rout (after_scan w st) =
           out st @ [FoundMsg (length (icons st)), DownloadingMsg (length (icons st))] @ evs
           @ [SummaryMsg (length (filter (\<lambda>item. \<not> writable w (path (snd item))) (icons st)))]
         \<and> http_requests evs = map (\<lambda>(sid, ic). icon_url sid ic) (icons st))"
proof -
  let ?f0 = "\<lparr>fworld = w, errors = 0,
              fout = out st @ [FoundMsg (length (icons st)), DownloadingMsg (length (icons st))]\<rparr>"
  from assms(4) obtain f' where f: "fetch_loop ?f0 (icons st) = Inr f'"
    using fetch_loop_Inr_iff [of ?f0 "icons st"] by auto
  from fetch_loop_fout [OF f] obtain evs where
    "fout f' = fout ?f0 @ evs" "http_requests evs = map (\<lambda>(sid, ic). icon_url sid ic) (icons st)"
    by blast
  moreover have "errors f' = length (filter (\<lambda>item. \<not> writable w (path (snd item))) (icons st))"
    using fetch_loop_errors_count [OF f] by simp
  moreover have "after_scan w st = \<lparr>rout = fout f' @ [SummaryMsg (errors f')], status = Exit 0,
                                     final = fworld f'\<rparr>"
    using assms(1-3) f by (simp add: after_scan_def)
  ultimately show ?thesis by simp
qed

theorem after_scan_confirmed_completes_witness:
  "[(''620'', demo_record)] \<noteq> [] \<and> stdin_line demo_world = Some ''y'' \<and> confirmed ''y''
   \<and> list_all (fetch_ok demo_world) [(''620'', demo_record)]
   \<and> status (after_scan demo_world \<lparr>icons = [(''620'', demo_record)], out = []\<rparr>) = Exit 0
   \<and> (\<exists>evs. rout (after_scan demo_world \<lparr>icons = [(''620'', demo_record)], out = []\<rparr>) =
          [FoundMsg 1, DownloadingMsg 1] @ evs @ [SummaryMsg 0]
        \<and> http_requests evs = [icon_url ''620'' demo_record])"
proof -
  have c: "confirmed ''y''" by (simp add: confirmed_def py_lower_eq_y)
  have ok: "list_all (fetch_ok demo_world) [(''620'', demo_record)]"
    by (simp add: fetch_ok_def response_ok_def demo_world_def demo_record_def demo_icon_def)
  have wr: "writable demo_world (path demo_record)"
    by (simp add: writable_def demo_world_def demo_record_def demo_icon_def)
  have ne: "[(''620'', demo_record)] \<noteq> []" by simp
  show ?thesis
    using after_scan_confirmed_completes [of "\<lparr>icons = [(''620'', demo_record)], out = []\<rparr>" demo_world "''y''"]
      ne demo_facts(2) c ok wr by simp
qed

end
