(* ===== verification/Console.thy ===== *)
theory Console
  imports Program
begin

text \<open>
  The text the script writes to standard output. Every \<open>print\<close> of src/sif.py is an event
  of the model; \<open>event_text\<close> gives the characters that print writes, and \<open>console\<close> the
  whole output of a run. It includes the licence and usage texts (lines 27-56) and the
  blank lines of lines 138 and 151, and \<open>str\<close> of the two counts. Coloured lines go through
  \<open>termcolor.colored\<close>. When colouring is on, it wraps the text in the ANSI code of the
  colour and the reset code; otherwise the text is unchanged. Whether termcolor colours
  depends on the terminal and the environment, so it is a parameter (\<open>ansi\<close>).
\<close>

section \<open>Library functions: str and termcolor\<close>

abbreviation esc :: char where "esc \<equiv> CHR 0x1B"
abbreviation dq :: char where "dq \<equiv> CHR 0x22"
abbreviation apos :: char where "apos \<equiv> CHR 0x27"

text \<open>\<open>str(n)\<close> of a non-negative Python int: its decimal digits, most significant first.\<close>

fun py_str_nat :: "nat \<Rightarrow> string" where
  "py_str_nat n =
     (if n < 10 then [char_of (48 + n)] else py_str_nat (n div 10) @ [char_of (48 + n mod 10)])"

declare py_str_nat.simps [simp del]

datatype colour = Red | Green | Yellow

definition ansi_code :: "colour \<Rightarrow> string" where
  "ansi_code c = (case c of Red \<Rightarrow> ''31'' | Green \<Rightarrow> ''32'' | Yellow \<Rightarrow> ''33'')"

text \<open>\<open>colored(text, colour)\<close>: \<open>"\033[%dm%s" % (code, text)\<close> followed by \<open>"\033[0m"\<close>.\<close>

definition colored :: "bool \<Rightarrow> string \<Rightarrow> colour \<Rightarrow> string" where
  "colored ansi txt c =
     (if ansi then esc # ''['' @ ansi_code c @ ''m'' @ txt @ esc # ''[0m'' else txt)"

section \<open>The licence and usage texts\<close>

fun join_nl :: "string list \<Rightarrow> string" where
  "join_nl [] = []"
| "join_nl [l] = l"
| "join_nl (l # ls) = l @ nl # join_nl ls"

definition license_text :: string where
  "license_text = nl # join_nl
     [''Steam Icon Fixer, Version 1.0'',
      ''Copyright (C) 2023 Liam '' @ [dq] @ ''AyesC'' @ [dq] @ '' Hogan'',
      [],
      ''This program is free software: you can redistribute it and/or modify'',
      ''it under the terms of the GNU General Public License as published by'',
      ''the Free Software Foundation, either version 3 of the License, or'',
      ''(at your option) any later version.'',
      [],
      ''This program is distributed in the hope that it will be useful,'',
      ''but WITHOUT ANY WARRANTY; without even the implied warranty of'',
      ''MERCHANTABILITY or FITNESS FOR A PARTICULAR PURPOSE. See the'',
      ''GNU General Public License for more details.'',
      [],
      ''You should have received a copy of the GNU General Public License'',
      ''along with this program. If not, see https://www.gnu.org/licenses/.'']"

definition usage_text :: string where
  "usage_text = join_nl
     [''---------------------------------------------'',
      [],
      ''Usage:'',
      ''sif.exe <path to file>'',
      [],
      ''Examples:'',
      ''sif.exe C:'' @ [bs] @ ''Users'' @ [bs] @ ''user'' @ [bs] @ ''Desktop'',
      ''sif.exe '' @ [dq] @ ''C:'' @ [bs] @ ''Users'' @ [bs] @ ''user'' @ [bs] @ ''Desktop'' @ [bs] @ ''Steam Games'' @ [dq],
      ''sif.exe '' @ [dq] @ ''C:'' @ [bs] @ ''Users'' @ [bs] @ ''user'' @ [bs] @ ''AppData'' @ [bs] @ ''Roaming'' @ [bs] @ ''Microsoft'' @ [bs] @ ''Windows'' @ [bs] @ ''Start Menu'' @ [bs] @ ''Programs'' @ [bs] @ ''Steam'' @ [dq],
      [],
      ''Errors & Exit Codes:'',
      ''<path> does not exist. (exit code 1): The specified directory does not exist.'',
      ''<path> is a file. (exit code 2): The specified path is not a directory.''] @ [nl]"

section \<open>What each print writes\<close>

definition event_text :: "bool \<Rightarrow> event \<Rightarrow> string" where
  "event_text ansi e = (case e of
       Banner \<Rightarrow> license_text @ [nl, nl] @ [nl]
     | OsWarning \<Rightarrow> colored ansi (''This program is not compatible with your operating system. You may only run this program on a Windows system.'') Red @ [nl]
     | Usage \<Rightarrow> usage_text @ [nl]
     | PathMissing p \<Rightarrow> colored ansi (p @ '' does not exist.'') Yellow @ [nl]
     | PathIsFile p \<Rightarrow> colored ansi (p @ '' is a file.'') Yellow @ [nl]
     | Searching p \<Rightarrow> ''Searching for valid Steam shortcuts in '' @ p @ ''...'' @ [nl]
     | NotInternetShortcutMsg n \<Rightarrow> colored ansi (n @ ('': File is not a valid internet shortcut. Skipping.'')) Red @ [nl]
     | NotSteamMsg n \<Rightarrow> colored ansi (n @ ('': Shortcut doesn'' @ [apos] @ ''t appear to be a Steam shortcut. Skipping.'')) Yellow @ [nl]
     | IconIsDirMsg n \<Rightarrow> colored ansi (n @ ('': Icon path is a directory. This error must be fixed manually. Skipping.'')) Red @ [nl]
     | IconPresentMsg n \<Rightarrow> colored ansi (n @ ('': Icon file is present, nothing needs to be done. Skipping.'')) Green @ [nl]
     | IconMissingMsg n \<Rightarrow> colored ansi (n @ ('': Icon missing, valid Steam game. Will be redownloaded.'')) Yellow @ [nl]
     | OpenFailedMsg n \<Rightarrow> colored ansi (n @ ('': Could not open the file. Make sure it'' @ [apos] @ ''s not in use and it'' @ [apos] @ ''s permissions are set correctly. Skipping.'')) Red @ [nl]
     | NoIconsMsg \<Rightarrow> [nl] @ (''No icons need to be redownloaded. Refer to the log above for any errors.'') @ [nl]
     | FoundMsg k \<Rightarrow> [nl] @ ''Found '' @ py_str_nat k @ '' missing icons.'' @ [nl]
                     @ ''Do you want to redownload the icons? (y/N): ''
     | CancelledMsg \<Rightarrow> [nl] @ colored ansi ''Cancelled.'' Red @ [nl]
     | DownloadingMsg k \<Rightarrow> [nl] @ ''Downloading '' @ py_str_nat k @ '' icons...'' @ [nl]
     | HttpGet u \<Rightarrow> []
     | FileWritten p \<Rightarrow> []
     | WriteFailedMsg sid \<Rightarrow> colored ansi (sid @ '': Failed to write the icon to disk.'') Red @ [nl]
     | SavedMsg sid \<Rightarrow> colored ansi (sid @ '': Downloaded and saved successfully.'') Green @ [nl]
     | SummaryMsg k \<Rightarrow> [nl] @ ''Downloading completed with '' @ py_str_nat k
                       @ '' errors. Refer to the above log for details.'' @ [nl])"

definition console :: "bool \<Rightarrow> event list \<Rightarrow> string" where
  "console ansi evs = concat (map (event_text ansi) evs)"

text \<open>The banner and, off Windows, the warning (lines 65-70).\<close>

definition banner_text :: "bool \<Rightarrow> world \<Rightarrow> string" where
  "banner_text ansi w = event_text ansi Banner @ (if os_nt w then [] else event_text ansi OsWarning)"

section \<open>Theorems\<close>

text \<open>
  C22: a path argument that does not exist ends the script with status 1. Nothing
  changes, and the output is the banner followed by the one line
  \<open><path> does not exist.\<close> (specification section 8: no further output beyond the
  error line).
\<close>

theorem console_path_missing:
  "2 \<le> length argv \<Longrightarrow> \<not> os_path_exists w (argv ! 1) \<Longrightarrow>
   status (main w argv) = Exit 1 \<and> final (main w argv) = w \<and>
   console ansi (rout (main w argv)) =
     banner_text ansi w @ colored ansi (argv ! 1 @ '' does not exist.'') Yellow @ [nl]"
  using main_invalid_path(1) [of argv w]
  by (cases "os_nt w") (simp_all add: console_def banner_text_def event_text_def)

theorem console_path_missing_witness:
  "2 \<le> length [''sif'', ''E''] \<and> \<not> os_path_exists demo_world ''E''
   \<and> status (main demo_world [''sif'', ''E'']) = Exit 1 \<and> final (main demo_world [''sif'', ''E'']) = demo_world
   \<and> console False (rout (main demo_world [''sif'', ''E''])) =
       banner_text False demo_world @ ''E does not exist.'' @ [nl]"
proof -
  have l: "2 \<le> length [''sif'', ''E'']" by simp
  have x: "\<not> os_path_exists demo_world ([''sif'', ''E''] ! 1)"
    by (simp add: os_path_exists_def demo_world_def)
  show ?thesis using l x console_path_missing [OF l x, of False] by (simp add: colored_def)
qed

text \<open>
  C24: without a path argument the script prints the banner and the usage text, exits 0
  and changes nothing.
\<close>

theorem console_usage:
  "length argv < 2 \<Longrightarrow>
   status (main w argv) = Exit 0 \<and> final (main w argv) = w \<and>
   console ansi (rout (main w argv)) = banner_text ansi w @ usage_text @ [nl]"
  by (cases "os_nt w") (simp_all add: main_def console_def banner_text_def event_text_def)

theorem console_usage_witness:
  "length [''sif''] < 2
   \<and> status (main demo_world [''sif'']) = Exit 0 \<and> final (main demo_world [''sif'']) = demo_world
   \<and> console True (rout (main demo_world [''sif''])) = banner_text True demo_world @ usage_text @ [nl]"
proof -
  have l: "length [''sif''] < 2" by simp
  show ?thesis using l console_usage [OF l, of demo_world True] by simp
qed

end
