(* ===== verification/Spec2Isabelle.thy ===== *)
theory Spec2Isabelle
  imports Console
begin

text \<open>
  Steam Icon Fixer (src/sif.py) scans a directory for Windows internet-shortcut files
  (\<open>.url\<close>) of Steam games, finds those whose icon file is missing, and downloads the icons
  from Steam's CDN after a confirmation. The script is one module-level program: a banner
  and an operating-system warning (lines 65-70), the argument checks (73-85), the scan loop
  over \<open>os.scandir\<close> that fills the global dict \<open>icons\<close> (87-136), the prompt (138-155)
  and the download loop over \<open>icons.items()\<close> (157-184). The scan feeds the download
  only through the dict; this development passes it explicitly.

  Theories, bottom up:
  \<^item> \<open>SIF_Prelude\<close>: characters, bytes (\<open>8 word\<close>), the Python exceptions the script can
    raise, the result type \<open>'a res\<close> of an operation that may raise (the exception with
    the state at the raise, or the new state), shared list combinators and lemmas.
  \<^item> \<open>PyRegex\<close>: the sre semantics of the \<open>re.search\<close> patterns of lines 102 and 109-111
    (\<open>re_match\<close>, a backtracking matcher with greedy repetition that gives characters
    back; \<open>re_search\<close>, leftmost start first) and its equivalence with closed forms over
    newline-terminated lines (\<open>line_field\<close>, \<open>line_last_seg\<close>).
  \<^item> \<open>PyText\<close>: \<open>str.endswith\<close>, \<open>str.lower\<close> (Latin-1), text-mode reading: code page
    decoding (cp1252 with its undefined bytes) and universal newlines.
  \<^item> \<open>World\<close>: the file system, directory listings, code page, HTTP answers, whether a
    file may be created, the line on standard input and \<open>os.name\<close> as one record
    \<open>world\<close>; \<open>os.path.exists\<close>, \<open>os.path.isfile\<close>, the \<open>DirEntry\<close> path, \<open>open\<close>/\<open>read\<close>,
    \<open>open\<close>/\<open>write\<close> and \<open>Response.ok\<close> as functions on it; \<open>event\<close>, one constructor per
    line printed and per effect (request sent, file written).
  \<^item> \<open>Shortcut\<close>: \<open>parse_shortcut\<close> (lines 101-119), its line-based specification, the
    roundtrip on the file Steam writes, and the unanchored icon name.
  \<^item> \<open>Scanner\<close>: the \<open>Icon\<close> class as a record, the dict as an association list updated
    like a Python dict (a new key at the end, an existing key in place), one function per
    iteration (\<open>scan_entry\<close>, with \<open>classify\<close> for lines 102-132) and the loop
    \<open>scan_loop\<close>; its specification \<open>entry_record\<close>/\<open>pending_spec\<close> and the refinement,
    key-order, invariant and error theorems.
  \<^item> \<open>Fetcher\<close>: one function per download iteration (\<open>fetch_one\<close>, lines 163-182) and
    the loop; theorems on which URLs are requested, the error count, the files written,
    the frame, and when the loop returns.
  \<^item> \<open>Program\<close>: \<open>main\<close> (lines 65-88 and the scan) and \<open>after_scan\<close> (138-160, 184)
    compose the components into a run: the output, how the process ends
    (\<open>sys.exit(n)\<close> or an uncaught exception, status 1) and the world afterwards;
    theorems on the exit statuses, the confirmation gate, the OS warning, the declined,
    interrupted and completed download stage, and two complete runs on an example
    directory.
  \<^item> \<open>Console\<close>: the text on standard output. It holds the licence and usage strings
    (lines 27-56), \<open>str\<close> of a count (\<open>py_str_nat\<close>) and \<open>termcolor.colored\<close>.
    \<open>event_text\<close> is what each \<open>print\<close> writes, including the blank lines of lines 138
    and 151, and \<open>console\<close> is a run's whole output. The theorems give the exact
    output of every run with the wrong number of arguments and of every run on a
    missing path.

  Lemma groups. Equivalence: the regex matcher against the line-based closed forms
  (\<open>PyRegex\<close>) and the parser against its specification (\<open>Shortcut\<close>). Refinement: the
  scan's dict, read as a map, is the fold of the specification's records. Invariant: the
  dict's keys are distinct and each maps to a record of that key. Error behaviour: every
  \<open>raise\<close> is an \<open>Inl\<close> branch of the model, and the theorems say when each happens and
  what escapes. Safety: no file is written and no request sent before the confirmation.
  Type: the fields the parser returns are single lines, the icon name a plain file name.
  Bounds: the dict has at most one entry per \<open>.url\<close> entry. Functional: the download
  loop's requests, error count, files written and frame (\<open>Fetcher\<close>), and the exit
  statuses and output of whole runs (\<open>Program\<close>, \<open>Console\<close>).

  Bounds and fuel: no fuel is needed. Every loop of the script runs over a finite list (the
  directory listing, the dict's items, the start positions of a string), so each model is
  structural recursion or, for \<open>nl_lines\<close>, recursion with a length measure; every model
  is total and executable, and the example runs evaluate by \<open>simp\<close> and \<open>code_simp\<close>.

  Findings the theorems record: the icon name is taken from the first line with a
  backslash, not from the \<open>IconFile=\<close> line;
  an unreadable shortcut aborts the scan with the \<open>TypeError\<close> of
  \<open>error.with_traceback()\<close>; an error status aborts the download with the \<open>TypeError\<close> of
  \<open>str + int\<close>; every uncaught exception ends with status 1; a path that is neither file
  nor directory and end of input at the prompt end the script with an exception.

  Not modelled: the standard error stream (the tracebacks of uncaught exceptions) and the
  encoding of standard output to bytes; how termcolor decides whether to colour (a
  terminal, the NO_COLOR and FORCE_COLOR variables), which is the parameter \<open>ansi\<close>;
  characters beyond 8 bits (Isabelle characters are Latin-1, enough for the ASCII the
  patterns test); symbolic links and races between \<open>os.scandir\<close> and \<open>open\<close>; HTTP
  redirects and timeouts, which the world's \<open>http\<close> function folds into its answer;
  \<open>KeyboardInterrupt\<close>. The module's control flow is modelled once, big-step, by
  \<open>main\<close> and \<open>after_scan\<close>; no separate small-step semantics is kept beside it.
\<close>

end
